theory Spec2Isabelle
  imports Complex_Main "HOL-Library.Word" "HOL-Library.Log_Nat"
begin

unbundle bit_operations_syntax

section \<open>The sharded-map benchmark \<open>bench.py\<close>\<close>

text \<open>
  A shallow embedding of \<^verbatim>\<open>src/python/bench.py\<close>. Python integers are unbounded and are
  modelled as \<open>int\<close>; the masks \<^verbatim>\<open>& ((1 << 64) - 1)\<close> of the source are written out.
  Python's \<^verbatim>\<open>%\<close> and \<^verbatim>\<open>//\<close> round towards minus infinity, as \<open>mod\<close> and \<open>div\<close> on \<open>int\<close> do,
  and \<^verbatim>\<open>>>\<close> on an \<open>int\<close> is \<open>drop_bit\<close>. Every raise of the source is a branch
  returning \<open>Inl\<close>.
\<close>

subsection \<open>The generator \<open>splitmix64\<close>\<close>

text \<open>
  \<^verbatim>\<open>
  def splitmix64(seed):
      x = seed & ((1 << 64) - 1)
      while True:
          x = (x + 0x9E3779B97F4A7C15) & ((1 << 64) - 1)
          z = x
          z = (z ^ (z >> 30)) * 0xBF58476D1CE4E5B9 & ((1 << 64) - 1)
          z = (z ^ (z >> 27)) * 0x94D049BB133111EB & ((1 << 64) - 1)
          z = z ^ (z >> 31)
          yield z
  \<close>
  The generator object is its local \<open>x\<close>: \<open>splitmix64 seed\<close> is the value of \<open>x\<close> before the
  loop, and \<open>next_rnd x\<close> is one \<^verbatim>\<open>next(rnd)\<close>, one pass of the loop body up to the
  \<^verbatim>\<open>yield\<close>, returning the value yielded and the new \<open>x\<close>. In Python \<^verbatim>\<open>*\<close> binds tighter than
  \<^verbatim>\<open>&\<close>, so the mask applies to the product.
\<close>

definition MASK64 :: int where
  "MASK64 = push_bit 64 1 - 1"

definition splitmix64 :: "int \<Rightarrow> int" where
  "splitmix64 seed = seed AND MASK64"

definition next_rnd :: "int \<Rightarrow> int \<times> int" where
  "next_rnd x0 =
     (let x = (x0 + 0x9E3779B97F4A7C15) AND MASK64;
          z = x;
          z = ((z XOR (drop_bit 30 z)) * 0xBF58476D1CE4E5B9) AND MASK64;
          z = ((z XOR (drop_bit 27 z)) * 0x94D049BB133111EB) AND MASK64;
          z = z XOR (drop_bit 31 z)
      in (z, x))"

text \<open>The first \<open>n\<close> values the generator yields from the state \<open>x\<close>.\<close>

fun draws :: "nat \<Rightarrow> int \<Rightarrow> int list" where
  "draws 0 x = []"
| "draws (Suc n) x = (case next_rnd x of (z, x') \<Rightarrow> z # draws n x')"

text \<open>
  The reference the specification describes, on 64-bit words, where \<open>+\<close> and \<open>*\<close> wrap
  modulo \<open>2 ^ 64\<close>: \<open>ref_next state\<close> returns the output value and the new state.
\<close>

definition ref_next :: "64 word \<Rightarrow> 64 word \<times> 64 word" where
  "ref_next state =
     (let state' = state + 0x9E3779B97F4A7C15;
          z = state';
          z = z XOR (drop_bit 30 z);
          z = z * 0xBF58476D1CE4E5B9;
          z = z XOR (drop_bit 27 z);
          z = z * 0x94D049BB133111EB;
          z = z XOR (drop_bit 31 z)
      in (z, state'))"

fun ref_sequence :: "nat \<Rightarrow> 64 word \<Rightarrow> 64 word list" where
  "ref_sequence 0 state = []"
| "ref_sequence (Suc n) state =
     (case ref_next state of (z, state') \<Rightarrow> z # ref_sequence n state')"

subsection \<open>Python values and their failures\<close>

text \<open>
  The exceptions the program can raise: \<^verbatim>\<open>%\<close> and \<^verbatim>\<open>//\<close> by zero, a list index out of range,
  the \<open>ValueError\<close> of \<^verbatim>\<open>mp.Pool(processes=n)\<close> for \<open>n < 1\<close> and of \<^verbatim>\<open>int(nan)\<close>, and the
  \<open>OverflowError\<close> of \<^verbatim>\<open>int(inf)\<close>.
\<close>

datatype py_error = ZeroDivisionError | IndexError | ValueError | OverflowError

definition py_mod :: "int \<Rightarrow> int \<Rightarrow> py_error + int" where
  "py_mod a b = (if b = 0 then Inl ZeroDivisionError else Inr (a mod b))"

definition py_floordiv :: "int \<Rightarrow> int \<Rightarrow> py_error + int" where
  "py_floordiv a b = (if b = 0 then Inl ZeroDivisionError else Inr (a div b))"

text \<open>\<^verbatim>\<open>xs[i]\<close>: the position read or written; a negative index counts from the end.\<close>

definition py_index :: "'a list \<Rightarrow> int \<Rightarrow> py_error + nat" where
  "py_index xs i =
     (if 0 \<le> i \<and> i < int (length xs) then Inr (nat i)
      else if i < 0 \<and> - int (length xs) \<le> i then Inr (nat (int (length xs) + i))
      else Inl IndexError)"

text \<open>\<^verbatim>\<open>range(n)\<close>, empty for \<open>n \<le> 0\<close>.\<close>

definition py_range :: "int \<Rightarrow> int list" where
  "py_range n = map int [0..<nat n]"

subsection \<open>Floats\<close>

text \<open>
  \<^verbatim>\<open>read_ratio\<close> is a Python float, an IEEE 754 double: a finite double is modelled by the
  real number it denotes, beside the two infinities and \<^verbatim>\<open>nan\<close> (which \<^verbatim>\<open>type=float\<close> of the
  argument parser accepts). Doubles have 53 significant bits and exponents from -1022 to
  1023; the two zeros are not told apart, as \<^verbatim>\<open>int\<close> does not tell them apart.
\<close>

datatype py_float = Finite real | PosInf | NegInf | NaN

text \<open>The nearest integer, a tie going to the even one.\<close>

definition round_half_even :: "real \<Rightarrow> int" where
  "round_half_even x =
     (let f = \<lfloor>x\<rfloor>; d = x - of_int f
      in if d < 1 / 2 then f else if 1 / 2 < d then f + 1 else if even f then f else f + 1)"

text \<open>For \<open>x > 0\<close>, the exponent \<open>e\<close> with \<open>2 ^ e \<le> x < 2 ^ (e + 1)\<close>.\<close>

definition ilog2 :: "real \<Rightarrow> int" where
  "ilog2 x = (if 1 \<le> x then bitlen \<lfloor>x\<rfloor> - 1 else - bitlen (\<lceil>1 / x\<rceil> - 1))"

text \<open>
  The double nearest to a real number (round to nearest, ties to even), as every arithmetic
  operation on doubles returns it: the number is rounded to a multiple of \<open>2 ^ (e - 52)\<close>,
  where \<open>e\<close> is its exponent, or -1022 for the subnormal numbers below; a result of
  magnitude \<open>2 ^ 1024\<close> or more overflows to an infinity.
\<close>

definition round_double :: "real \<Rightarrow> py_float" where
  "round_double x =
     (if x = 0 then Finite 0
      else
        (let e = max (ilog2 \<bar>x\<bar>) (- 1022);
             y = (if e \<le> 52
                  then of_int (round_half_even (x * 2 ^ nat (52 - e))) / 2 ^ nat (52 - e)
                  else of_int (round_half_even (x / 2 ^ nat (e - 52))) * 2 ^ nat (e - 52))
         in if 2 ^ 1024 \<le> \<bar>y\<bar> then (if 0 < x then PosInf else NegInf) else Finite y))"

text \<open>\<^verbatim>\<open>a * b\<close> on floats.\<close>

fun py_float_mul :: "py_float \<Rightarrow> py_float \<Rightarrow> py_float" where
  "py_float_mul NaN b = NaN"
| "py_float_mul a NaN = NaN"
| "py_float_mul (Finite a) (Finite b) = round_double (a * b)"
| "py_float_mul (Finite a) PosInf = (if a = 0 then NaN else if 0 < a then PosInf else NegInf)"
| "py_float_mul (Finite a) NegInf = (if a = 0 then NaN else if 0 < a then NegInf else PosInf)"
| "py_float_mul PosInf (Finite b) = (if b = 0 then NaN else if 0 < b then PosInf else NegInf)"
| "py_float_mul NegInf (Finite b) = (if b = 0 then NaN else if 0 < b then NegInf else PosInf)"
| "py_float_mul PosInf PosInf = PosInf"
| "py_float_mul PosInf NegInf = NegInf"
| "py_float_mul NegInf PosInf = NegInf"
| "py_float_mul NegInf NegInf = PosInf"

text \<open>
  \<^verbatim>\<open>int(p)\<close> of a float truncates towards zero; it raises \<open>OverflowError\<close> on an infinity
  and \<open>ValueError\<close> on \<^verbatim>\<open>nan\<close>.
\<close>

fun py_int :: "py_float \<Rightarrow> py_error + int" where
  "py_int (Finite p) = Inr (if 0 \<le> p then \<lfloor>p\<rfloor> else \<lceil>p\<rceil>)"
| "py_int PosInf = Inl OverflowError"
| "py_int NegInf = Inl OverflowError"
| "py_int NaN = Inl ValueError"

text \<open>
  Lines 31 and 51, \<^verbatim>\<open>reads = int(read_ratio * 1000)\<close>: the integer 1000 becomes the double
  1000.0 and the product is the product of doubles.
\<close>

definition reads_of :: "py_float \<Rightarrow> py_error + int" where
  "reads_of read_ratio = py_int (py_float_mul read_ratio (Finite 1000))"

subsection \<open>Shards\<close>

text \<open>
  A shard is a \<^verbatim>\<open>dict\<close> from integer keys to integer counters; the store is the list of
  shards. \<open>dict_get d k dflt\<close> is \<^verbatim>\<open>d.get(k, dflt)\<close> and \<open>dict_set d k v\<close> is \<^verbatim>\<open>d[k] = v\<close>.
\<close>

type_synonym shard = "int \<rightharpoonup> int"

definition dict_get :: "shard \<Rightarrow> int \<Rightarrow> int \<Rightarrow> int" where
  "dict_get d k dflt = (case d k of None \<Rightarrow> dflt | Some v \<Rightarrow> v)"

definition dict_set :: "shard \<Rightarrow> int \<Rightarrow> int \<Rightarrow> shard" where
  "dict_set d k v = d(k \<mapsto> v)"

text \<open>
  The prefill loop, the same in \<open>main\<close> (lines 80-81) and in \<open>worker_process\<close> (lines 48-49):
  \<^verbatim>\<open>
  for i in range(keys):
      shards[i % shardsN][i] = 0
  \<close>
  \<open>prefill shardsN is shards\<close> runs it over the remaining indices \<open>is\<close>.
\<close>

fun prefill :: "int \<Rightarrow> int list \<Rightarrow> shard list \<Rightarrow> py_error + shard list" where
  "prefill shardsN [] shards = Inr shards"
| "prefill shardsN (i # rest) shards =
     (case py_mod i shardsN of
        Inl e \<Rightarrow> Inl e
      | Inr s \<Rightarrow>
          (case py_index shards s of
             Inl e \<Rightarrow> Inl e
           | Inr j \<Rightarrow> prefill shardsN rest (shards[j := dict_set (shards ! j) i 0])))"

subsection \<open>The workers\<close>

text \<open>
  What an iteration does to a shard is recorded as it happens: \<open>Load j k v\<close> is the call
  \<^verbatim>\<open>shards[s].get(k, 0)\<close> on the shard at position \<open>j\<close> of the list, returning \<open>v\<close>, and
  \<open>Store j k v\<close> is the assignment \<^verbatim>\<open>shards[s][k] = v\<close> on the shard at position \<open>j\<close>.
\<close>

datatype access = Load nat int int | Store nat int int

text \<open>
  The body of the loop of \<open>worker_thread\<close> (lines 33-41), from the store and the generator
  state to the accesses made, the new store and the new generator state:
  \<^verbatim>\<open>
  k = int(next(rnd) % keys)
  r = int(next(rnd) % 1000)
  s = k % len(shards)
  if r < reads:
      with locks[s]:
          _ = shards[s].get(k, 0)
  else:
      with locks[s]:
          shards[s][k] = shards[s].get(k, 0) + 1
  \<close>
  \<open>locks\<close> has the length of \<open>shards\<close>, so \<^verbatim>\<open>locks[s]\<close> fails exactly when \<^verbatim>\<open>shards[s]\<close> does.
  Each access to a shard happens under the lock of that shard, so one pass of the body is one
  atomic step on the shared store.
\<close>

definition thread_iter ::
  "shard list \<Rightarrow> int \<Rightarrow> int \<Rightarrow> int \<Rightarrow> py_error + access list \<times> shard list \<times> int" where
  "thread_iter shards keys reads rnd =
     (case next_rnd rnd of (d1, rnd1) \<Rightarrow>
     (case py_mod d1 keys of Inl e \<Rightarrow> Inl e | Inr k \<Rightarrow>
     (case next_rnd rnd1 of (d2, rnd2) \<Rightarrow>
     (case py_mod d2 1000 of Inl e \<Rightarrow> Inl e | Inr r \<Rightarrow>
     (case py_mod k (int (length shards)) of Inl e \<Rightarrow> Inl e | Inr s \<Rightarrow>
        if r < reads then
          (case py_index shards s of
             Inl e \<Rightarrow> Inl e
           | Inr j \<Rightarrow>
               (let v = dict_get (shards ! j) k 0 in Inr ([Load j k v], shards, rnd2)))
        else
          (case py_index shards s of
             Inl e \<Rightarrow> Inl e
           | Inr j \<Rightarrow>
               (let v = dict_get (shards ! j) k 0
                in Inr ([Load j k v, Store j k (v + 1)],
                        shards[j := dict_set (shards ! j) k (v + 1)], rnd2))))))))"

text \<open>The body of the loop of \<open>worker_process\<close> (lines 53-59), which routes by \<open>shardsN\<close>.\<close>

definition process_iter ::
  "int \<Rightarrow> shard list \<Rightarrow> int \<Rightarrow> int \<Rightarrow> int \<Rightarrow> py_error + access list \<times> shard list \<times> int" where
  "process_iter shardsN shards keys reads rnd =
     (case next_rnd rnd of (d1, rnd1) \<Rightarrow>
     (case py_mod d1 keys of Inl e \<Rightarrow> Inl e | Inr k \<Rightarrow>
     (case next_rnd rnd1 of (d2, rnd2) \<Rightarrow>
     (case py_mod d2 1000 of Inl e \<Rightarrow> Inl e | Inr r \<Rightarrow>
     (case py_mod k shardsN of Inl e \<Rightarrow> Inl e | Inr s \<Rightarrow>
        if r < reads then
          (case py_index shards s of
             Inl e \<Rightarrow> Inl e
           | Inr j \<Rightarrow>
               (let v = dict_get (shards ! j) k 0 in Inr ([Load j k v], shards, rnd2)))
        else
          (case py_index shards s of
             Inl e \<Rightarrow> Inl e
           | Inr j \<Rightarrow>
               (let v = dict_get (shards ! j) k 0
                in Inr ([Load j k v, Store j k (v + 1)],
                        shards[j := dict_set (shards ! j) k (v + 1)], rnd2))))))))"

text \<open>
  A thread is its locals, the generator state \<open>rnd\<close>, the threshold \<open>reads\<close> and the number
  of iterations it still has to run, or the exception that ended it. \<open>thread_loop n\<close> is the
  \<^verbatim>\<open>for _ in range(per)\<close> loop with \<open>n\<close> iterations left; what a thread wrote to the shared
  store before it raised stays written.
\<close>

datatype thread = Running int int nat | Raised py_error

fun thread_loop ::
  "nat \<Rightarrow> shard list \<Rightarrow> int \<Rightarrow> int \<Rightarrow> int \<Rightarrow> shard list \<times> thread" where
  "thread_loop 0 shards keys reads rnd = (shards, Running rnd reads 0)"
| "thread_loop (Suc n) shards keys reads rnd =
     (case thread_iter shards keys reads rnd of
        Inl e \<Rightarrow> (shards, Raised e)
      | Inr (accs, shards', rnd') \<Rightarrow> thread_loop n shards' keys reads rnd')"

text \<open>
  Lines 30-31, the start of \<open>worker_thread\<close>: the generator is created and the threshold
  computed, which raises when the product is not a finite number.
\<close>

definition start_thread :: "int \<Rightarrow> py_float \<Rightarrow> int \<Rightarrow> int \<Rightarrow> thread" where
  "start_thread per read_ratio seed tid =
     (let rnd = splitmix64 (seed + tid) in
      (case reads_of read_ratio of
         Inl e \<Rightarrow> Raised e
       | Inr reads \<Rightarrow> Running rnd reads (nat per)))"

fun finish_thread :: "int \<Rightarrow> shard list \<Rightarrow> thread \<Rightarrow> shard list \<times> thread" where
  "finish_thread keys shards (Raised e) = (shards, Raised e)"
| "finish_thread keys shards (Running rnd reads n) = thread_loop n shards keys reads rnd"

text \<open>\<open>worker_thread\<close> run with no other thread in between: the store it leaves and how it ended.\<close>

definition worker_thread ::
  "shard list \<Rightarrow> int \<Rightarrow> int \<Rightarrow> py_float \<Rightarrow> int \<Rightarrow> int \<Rightarrow> shard list \<times> thread" where
  "worker_thread shards keys per read_ratio seed tid =
     finish_thread keys shards (start_thread per read_ratio seed tid)"

fun process_loop ::
  "nat \<Rightarrow> int \<Rightarrow> shard list \<Rightarrow> int \<Rightarrow> int \<Rightarrow> int \<Rightarrow> py_error + shard list \<times> int" where
  "process_loop 0 shardsN shards keys reads rnd = Inr (shards, rnd)"
| "process_loop (Suc n) shardsN shards keys reads rnd =
     (case process_iter shardsN shards keys reads rnd of
        Inl e \<Rightarrow> Inl e
      | Inr (accs, shards', rnd') \<Rightarrow> process_loop n shardsN shards' keys reads rnd')"

text \<open>
  \<open>worker_process\<close> returns 0 and drops its private store; \<open>worker_process_shards\<close> is the same
  run, returning the local \<open>shards\<close> as it is at the \<^verbatim>\<open>return\<close>.
\<close>

definition worker_process_shards ::
  "int \<times> int \<times> py_float \<times> int \<times> int \<times> int \<Rightarrow> py_error + shard list" where
  "worker_process_shards args =
     (case args of (keys, per, read_ratio, seed, pid, shardsN) \<Rightarrow>
        (let shards = replicate (nat shardsN) Map.empty in
         (case prefill shardsN (py_range keys) shards of
            Inl e \<Rightarrow> Inl e
          | Inr shards \<Rightarrow>
              (let rnd = splitmix64 (seed + pid) in
               (case reads_of read_ratio of
                  Inl e \<Rightarrow> Inl e
                | Inr reads \<Rightarrow>
                    (case process_loop (nat per) shardsN shards keys reads rnd of
                       Inl e \<Rightarrow> Inl e
                     | Inr (shards', _) \<Rightarrow> Inr shards'))))))"

definition worker_process ::
  "int \<times> int \<times> py_float \<times> int \<times> int \<times> int \<Rightarrow> py_error + int" where
  "worker_process args =
     (case worker_process_shards args of Inl e \<Rightarrow> Inl e | Inr _ \<Rightarrow> Inr 0)"

subsection \<open>Threads on the shared store\<close>

text \<open>
  The threads of the shared-memory model interleave. A schedule is the list of the scheduler's
  choices: each entry names the thread that runs its next iteration (an entry naming no
  thread, or a thread that has ended, does nothing). When the schedule is used up, the joins of
  line 88 wait for every thread still running, so \<open>join_all\<close> runs them to their end. Every
  interleaving of whole iterations is the run of some schedule.
\<close>

fun step_thread :: "int \<Rightarrow> shard list \<Rightarrow> thread \<Rightarrow> shard list \<times> thread" where
  "step_thread keys shards (Raised e) = (shards, Raised e)"
| "step_thread keys shards (Running rnd reads 0) = (shards, Running rnd reads 0)"
| "step_thread keys shards (Running rnd reads (Suc n)) =
     (case thread_iter shards keys reads rnd of
        Inl e \<Rightarrow> (shards, Raised e)
      | Inr (accs, shards', rnd') \<Rightarrow> (shards', Running rnd' reads n))"

fun run_schedule ::
  "int \<Rightarrow> nat list \<Rightarrow> shard list \<times> thread list \<Rightarrow> shard list \<times> thread list" where
  "run_schedule keys [] st = st"
| "run_schedule keys (i # sched) (shards, ts) =
     (if i < length ts then
        (case step_thread keys shards (ts ! i) of
           (shards', t') \<Rightarrow> run_schedule keys sched (shards', ts[i := t']))
      else run_schedule keys sched (shards, ts))"

fun join_all :: "int \<Rightarrow> shard list \<Rightarrow> thread list \<Rightarrow> shard list \<times> thread list" where
  "join_all keys shards [] = (shards, [])"
| "join_all keys shards (t # ts) =
     (case finish_thread keys shards t of (shards', t') \<Rightarrow>
        (case join_all keys shards' ts of (shards'', ts') \<Rightarrow> (shards'', t' # ts')))"

subsection \<open>The program\<close>

record args =
  arg_threads :: int
  arg_iterations :: int
  arg_keys :: int
  arg_read_ratio :: py_float
  arg_seed :: int
  arg_model :: string
  arg_shards :: int

text \<open>
  Lines 78-88: the shared store is created and prefilled, one thread per index of
  \<^verbatim>\<open>range(args.threads)\<close> is started with its own generator, and all are joined. The result is
  the store and the threads at the join, or the exception raised by the prefill in the main
  thread.
\<close>

definition threads_model ::
  "args \<Rightarrow> int \<Rightarrow> nat list \<Rightarrow> py_error + shard list \<times> thread list" where
  "threads_model a per sched =
     (let shards = replicate (nat (arg_shards a)) Map.empty in
      (case prefill (arg_shards a) (py_range (arg_keys a)) shards of
         Inl e \<Rightarrow> Inl e
       | Inr shards \<Rightarrow>
           (let ts = map (\<lambda>i. start_thread per (arg_read_ratio a) (arg_seed a) i)
                         (py_range (arg_threads a))
            in (case run_schedule (arg_keys a) sched (shards, ts) of
                  (shards', ts') \<Rightarrow> Inr (join_all (arg_keys a) shards' ts')))))"

text \<open>
  Lines 90-92: \<^verbatim>\<open>pool.map\<close> returns the list of the workers' results, or raises in the parent
  the exception a worker raised.
\<close>

fun pool_map :: "('a \<Rightarrow> py_error + 'b) \<Rightarrow> 'a list \<Rightarrow> py_error + 'b list" where
  "pool_map f [] = Inr []"
| "pool_map f (x # xs) =
     (case f x of
        Inl e \<Rightarrow> Inl e
      | Inr y \<Rightarrow> (case pool_map f xs of Inl e \<Rightarrow> Inl e | Inr ys \<Rightarrow> Inr (y # ys)))"

definition processes_model :: "args \<Rightarrow> int \<Rightarrow> py_error + int list" where
  "processes_model a per =
     (if arg_threads a < 1 then Inl ValueError
      else pool_map worker_process
             (map (\<lambda>i. (arg_keys a, per, arg_read_ratio a, arg_seed a, i, arg_shards a))
                  (py_range (arg_threads a))))"

text \<open>
  What the run reads from its environment: the interpreter version, the elapsed time in
  milliseconds and the resident set size.
\<close>

record env =
  env_runtime :: string
  env_duration_ms :: int
  env_rss_bytes :: int

record result =
  res_runtime :: string
  res_model :: string
  res_threads :: int
  res_iterations :: int
  res_keys :: int
  res_read_ratio :: py_float
  res_seed :: int
  res_duration_ms :: int
  res_rss_bytes :: int

text \<open>
  What the process leaves behind: its exit status, the records printed to standard
  output, and what was written to the error stream. An exception that reaches the top of the
  main thread prints its traceback and ends the process with status 1, as \<^verbatim>\<open>sys.exit(1)\<close>
  does without a traceback. An exception that ends a thread prints its traceback and leaves
  the main thread running.
\<close>

datatype diagnostic = Traceback py_error | Message string

record outcome =
  exit_status :: int
  stdout :: "result list"
  stderr :: "diagnostic list"

definition uncaught :: "py_error \<Rightarrow> outcome" where
  "uncaught e = \<lparr>exit_status = 1, stdout = [], stderr = [Traceback e]\<rparr>"

fun thread_tracebacks :: "thread list \<Rightarrow> diagnostic list" where
  "thread_tracebacks [] = []"
| "thread_tracebacks (Raised e # ts) = Traceback e # thread_tracebacks ts"
| "thread_tracebacks (Running rnd reads n # ts) = thread_tracebacks ts"

text \<open>Lines 97-109: the record is built and printed, and the process ends with status 0.\<close>

definition emit :: "diagnostic list \<Rightarrow> args \<Rightarrow> env \<Rightarrow> int \<Rightarrow> outcome" where
  "emit errs a env per =
     \<lparr>exit_status = 0,
      stdout = [\<lparr>res_runtime = env_runtime env, res_model = arg_model a,
                 res_threads = arg_threads a, res_iterations = per * arg_threads a,
                 res_keys = arg_keys a, res_read_ratio = arg_read_ratio a,
                 res_seed = arg_seed a, res_duration_ms = env_duration_ms env,
                 res_rss_bytes = env_rss_bytes env\<rparr>],
      stderr = errs\<rparr>"

definition main :: "args \<Rightarrow> env \<Rightarrow> nat list \<Rightarrow> outcome" where
  "main a env sched =
     (case py_floordiv (arg_iterations a) (arg_threads a) of
        Inl e \<Rightarrow> uncaught e
      | Inr per \<Rightarrow>
          if arg_model a = ''threads'' then
            (case threads_model a per sched of
               Inl e \<Rightarrow> uncaught e
             | Inr (shards, ts) \<Rightarrow> emit (thread_tracebacks ts) a env per)
          else if arg_model a = ''processes'' then
            (case processes_model a per of
               Inl e \<Rightarrow> uncaught e
             | Inr _ \<Rightarrow> emit [] a env per)
          else \<lparr>exit_status = 1, stdout = [], stderr = [Message ''unknown model'']\<rparr>)"

subsection \<open>The operations of the specification\<close>

text \<open>
  The workload of the specification: an operation is \<open>Read key\<close> or \<open>Write key\<close>. From a stream
  of draws, each operation takes two: \<open>key = draw mod K\<close>, then \<open>r = draw mod 1000\<close>, and the
  operation is a read when \<open>r < threshold\<close>, where the threshold is the floor of \<open>scaled\<close>, the
  value of the product \<open>\<rho> * 1000\<close>.
\<close>

datatype operation = Read int | Write int

fun ops_of_draws :: "int \<Rightarrow> real \<Rightarrow> int list \<Rightarrow> operation list" where
  "ops_of_draws K scaled (d1 # d2 # ds) =
     (let key = d1 mod K; r = d2 mod 1000; threshold = \<lfloor>scaled\<rfloor>
      in (if r < threshold then Read key else Write key)) # ops_of_draws K scaled ds"
| "ops_of_draws K scaled ds = []"

text \<open>
  The store of the specification, with \<open>route key = key mod S\<close>: a read returns the stored
  value or 0 and leaves the store as it is; a write increments the stored value of the key in
  its shard, starting from 0 when the key is absent.
\<close>

definition route :: "int \<Rightarrow> int \<Rightarrow> nat" where
  "route S key = nat (key mod S)"

definition store_read :: "int \<Rightarrow> shard list \<Rightarrow> int \<Rightarrow> int" where
  "store_read S shards key = (case (shards ! route S key) key of None \<Rightarrow> 0 | Some v \<Rightarrow> v)"

fun apply_op :: "int \<Rightarrow> shard list \<Rightarrow> operation \<Rightarrow> shard list" where
  "apply_op S shards (Read key) = shards"
| "apply_op S shards (Write key) =
     shards[route S key := (shards ! route S key)(key \<mapsto> store_read S shards key + 1)]"

text \<open>The accesses an operation makes on a store: a read loads, a write loads and stores.\<close>

fun op_accesses :: "int \<Rightarrow> shard list \<Rightarrow> operation \<Rightarrow> access list" where
  "op_accesses S shards (Read key) = [Load (route S key) key (store_read S shards key)]"
| "op_accesses S shards (Write key) =
     [Load (route S key) key (store_read S shards key),
      Store (route S key) key (store_read S shards key + 1)]"

text \<open>The operation an iteration performs from the generator state \<open>rnd\<close>, for a threshold.\<close>

definition next_op :: "int \<Rightarrow> int \<Rightarrow> int \<Rightarrow> operation" where
  "next_op keys reads rnd =
     (let k = fst (next_rnd rnd) mod keys;
          r = fst (next_rnd (snd (next_rnd rnd))) mod 1000
      in if r < reads then Read k else Write k)"

text \<open>The generator state after \<open>n\<close> draws.\<close>

fun rnd_after :: "nat \<Rightarrow> int \<Rightarrow> int" where
  "rnd_after 0 x = x"
| "rnd_after (Suc n) x = rnd_after n (snd (next_rnd x))"

text \<open>The prefilled store: shard \<open>j\<close> holds the keys of \<open>[0, K)\<close> that are \<open>j\<close> modulo \<open>S\<close>, at 0.\<close>

definition prefilled :: "int \<Rightarrow> int \<Rightarrow> shard list" where
  "prefilled K S =
     map (\<lambda>j k. if 0 \<le> k \<and> k < K \<and> k mod S = int j then Some 0 else None) [0..<nat S]"

text \<open>The keys of a store, and the stores whose every key lives in the shard it routes to.\<close>

definition key_set :: "shard list \<Rightarrow> int set" where
  "key_set shards = (\<Union>d \<in> set shards. dom d)"

definition routed :: "int \<Rightarrow> shard list \<Rightarrow> bool" where
  "routed S shards \<longleftrightarrow>
     length shards = nat S \<and> (\<forall>j k. j < nat S \<and> k \<in> dom (shards ! j) \<longrightarrow> route S k = j)"

text \<open>
  The stores that hold exactly the keys of \<open>[0, K)\<close>, each in the shard it routes to.
\<close>

definition holds_keys :: "int \<Rightarrow> int \<Rightarrow> shard list \<Rightarrow> bool" where
  "holds_keys K S shards \<longleftrightarrow>
     length shards = nat S \<and>
     (\<forall>j. j < nat S \<longrightarrow> dom (shards ! j) = {k. 0 \<le> k \<and> k < K \<and> route S k = j})"

fun op_key :: "operation \<Rightarrow> int" where
  "op_key (Read key) = key"
| "op_key (Write key) = key"

section \<open>Properties of the generator\<close>

lemma MASK64_mask: "MASK64 = mask 64"
  unfolding MASK64_def mask_eq_exp_minus_1 push_bit_eq_mult by simp

lemma and_MASK64: "k AND MASK64 = take_bit 64 k"
  by (simp only: MASK64_mask take_bit_eq_mask)

lemma and_MASK64_mod: "k AND MASK64 = k mod 2 ^ 64"
  by (simp only: and_MASK64 take_bit_eq_mod)

lemma uint_w64_of_int: "uint (word_of_int k :: 64 word) = take_bit 64 k"
  by (simp add: uint_word_of_int_eq)

lemma uint_xor_shift: "uint (w XOR drop_bit n w) = uint w XOR drop_bit n (uint w)"
  for w :: "64 word"
proof -
  have "take_bit 64 (uint w) = uint w"
    using uint_lt2p [of w] by (simp add: take_bit_int_eq_self)
  then show ?thesis
    by (simp add: uint_xor unsigned_drop_bit_eq)
qed

lemma uint_mult64: "uint (w * word_of_int c) = take_bit 64 (uint w * c)"
  for w :: "64 word"
  by (metis (no_types) uint_w64_of_int word_of_int_uint wi_hom_mult)

lemma uint_add64: "uint (w + word_of_int c) = take_bit 64 (uint w + c)"
  for w :: "64 word"
  by (metis (no_types) uint_w64_of_int word_of_int_uint wi_hom_add)

text \<open>One \<^verbatim>\<open>next(rnd)\<close> of the source is one step of the reference, read as unsigned.\<close>

lemma next_rnd_ref:
  "next_rnd (uint w) = (uint (fst (ref_next w)), uint (snd (ref_next w)))"
proof -
  have c1: "(0x9E3779B97F4A7C15 :: 64 word) = word_of_int 0x9E3779B97F4A7C15" by simp
  have c2: "(0xBF58476D1CE4E5B9 :: 64 word) = word_of_int 0xBF58476D1CE4E5B9" by simp
  have c3: "(0x94D049BB133111EB :: 64 word) = word_of_int 0x94D049BB133111EB" by simp
  show ?thesis
    unfolding next_rnd_def ref_next_def Let_def and_MASK64 fst_conv snd_conv c1 c2 c3
    by (simp only: uint_xor_shift uint_mult64 uint_add64)
qed

lemma draws_ref: "draws n (uint w) = map uint (ref_sequence n w)"
proof (induction n arbitrary: w)
  case 0
  show ?case by simp
next
  case (Suc n)
  obtain z s where r: "ref_next w = (z, s)" by (cases "ref_next w")
  have "next_rnd (uint w) = (uint z, uint s)"
    using next_rnd_ref [of w] r by simp
  then show ?case using Suc.IH [of s] r by simp
qed

lemma splitmix64_uint: "splitmix64 seed = uint (word_of_int seed :: 64 word)"
  by (simp only: splitmix64_def and_MASK64 uint_w64_of_int)

text \<open>The generator seeded with 0 starts with the published splitmix64 value.\<close>

lemma splitmix64_seed0: "next_rnd (splitmix64 0) = (0xE220A8397B1DCDAF, 0x9E3779B97F4A7C15)"
  by (simp add: next_rnd_def splitmix64_def MASK64_def Let_def)

text \<open>
  Claim C2. For every seed (any Python integer, also negative or beyond 64 bits), the
  first \<open>n\<close> values yielded by \<open>splitmix64(seed)\<close> are, for every \<open>n\<close>, the first \<open>n\<close>
  outputs of the reference splitmix64 on 64-bit words started from the seed reduced modulo
  \<open>2 ^ 64\<close>: each step adds \<open>0x9E3779B97F4A7C15\<close> to the state with wrap-around, and mixes
  the new state by xor-shift 30, multiplication by \<open>0xBF58476D1CE4E5B9\<close>, xor-shift 27,
  multiplication by \<open>0x94D049BB133111EB\<close> and xor-shift 31.
\<close>

theorem splitmix64_is_reference:
  "draws n (splitmix64 seed) = map uint (ref_sequence n (word_of_int seed))"
  by (simp only: splitmix64_uint draws_ref)

section \<open>Floats\<close>

lemma bitlen_1 [simp]: "bitlen 1 = 1"
  using compute_bitlen [of 1] by simp

lemma bitlen_Bit0 [simp]: "bitlen (numeral (Num.Bit0 n)) = bitlen (numeral n) + 1"
  using compute_bitlen [of "numeral (Num.Bit0 n)"] by simp

lemma bitlen_Bit1 [simp]: "bitlen (numeral (Num.Bit1 n)) = bitlen (numeral n) + 1"
  using compute_bitlen [of "numeral (Num.Bit1 n)"] by simp

lemmas round_double_eval = round_double_def ilog2_def round_half_even_def Let_def

lemma reads_of_0: "reads_of (Finite 0) = Inr 0"
  by (simp add: reads_of_def round_double_def)

lemma reads_of_1: "reads_of (Finite 1) = Inr 1000"
  by (simp add: reads_of_def round_double_eval)

text \<open>
  The double nearest to 0.29 is \<open>5224175567749775 / 2 ^ 54\<close>, a little below 0.29. Its exact
  product with 1000 lies below 290, and the product of doubles rounds it to 290.
\<close>

lemma reads_of_029: "reads_of (Finite (5224175567749775 / 2 ^ 54)) = Inr 290"
  by (simp add: reads_of_def round_double_eval)

lemma exact_product_029: "\<lfloor>5224175567749775 / 2 ^ 54 * 1000 :: real\<rfloor> = 289"
  by (simp add: floor_eq_iff)

lemma reads_of_overflow: "reads_of (Finite (10 ^ 306)) = Inl OverflowError"
  by (simp add: reads_of_def round_double_eval)

lemma reads_of_inf_nan:
  "reads_of PosInf = Inl OverflowError" "reads_of NegInf = Inl OverflowError"
  "reads_of NaN = Inl ValueError"
  by (simp_all add: reads_of_def)

lemma reads_of_Finite:
  "py_float_mul read_ratio (Finite 1000) = Finite p \<Longrightarrow>
   reads_of read_ratio = Inr (if 0 \<le> p then \<lfloor>p\<rfloor> else \<lceil>p\<rceil>)"
  by (simp add: reads_of_def)

lemma reads_of_Inr_Finite:
  "reads_of read_ratio = Inr reads \<Longrightarrow> \<exists>p. py_float_mul read_ratio (Finite 1000) = Finite p"
  by (cases "py_float_mul read_ratio (Finite 1000)") (simp_all add: reads_of_def)

lemma round_half_even_bounds:
  "of_int (round_half_even x) \<le> x + 1" "x - 1 \<le> of_int (round_half_even x)"
  unfolding round_half_even_def Let_def by (simp_all; linarith)+

lemma ilog2_le_52: assumes "0 < x" and "x < 2 ^ 53" shows "ilog2 x \<le> 52"
proof (cases "1 \<le> x")
  case True
  have "\<lfloor>x\<rfloor> < 2 ^ 53"
    using assms(2) by (simp add: floor_less_iff)
  then have "bitlen \<lfloor>x\<rfloor> \<le> 53"
    using bitlen_le_iff_power [of "\<lfloor>x\<rfloor>" 53] by simp
  then show ?thesis using True by (simp add: ilog2_def)
next
  case False
  then show ?thesis
    using bitlen_nonneg [of "\<lceil>1 / x\<rceil> - 1"] by (simp add: ilog2_def)
qed

text \<open>A number below \<open>2 ^ 53\<close> in magnitude rounds to a finite double, at most 1 away.\<close>

lemma round_double_finite:
  assumes "\<bar>x\<bar> < 2 ^ 53"
  shows "\<exists>y. round_double x = Finite y \<and> \<bar>y - x\<bar> \<le> 1"
proof (cases "x = 0")
  case True
  then show ?thesis by (simp add: round_double_def)
next
  case False
  define e where "e = max (ilog2 \<bar>x\<bar>) (- 1022)"
  define k where "k = nat (52 - e)"
  define y where "y = real_of_int (round_half_even (x * 2 ^ k)) / 2 ^ k"
  have e: "e \<le> 52"
    using ilog2_le_52 [of "\<bar>x\<bar>"] assms False by (simp add: e_def)
  have pos: "(0::real) < 2 ^ k" by simp
  have b: "y \<le> (x * 2 ^ k + 1) / 2 ^ k" "(x * 2 ^ k - 1) / 2 ^ k \<le> y"
    unfolding y_def using round_half_even_bounds [of "x * 2 ^ k"]
    by (simp_all add: divide_right_mono)
  have u: "(x * 2 ^ k + 1) / 2 ^ k = x + 1 / 2 ^ k"
    by (simp add: field_simps)
  have l: "(x * 2 ^ k - 1) / 2 ^ k = x - 1 / 2 ^ k"
    by (simp add: field_simps)
  have "1 / (2::real) ^ k \<le> 1"
    by (simp add: field_simps)
  then have close: "\<bar>y - x\<bar> \<le> 1"
    using b unfolding u l by linarith
  have "\<bar>y\<bar> < 2 ^ 53 + 1"
    using close assms by linarith
  also have "\<dots> < (2::real) ^ 1024"
    by simp
  finally have "\<not> 2 ^ 1024 \<le> \<bar>y\<bar>" by simp
  then have "round_double x = Finite y"
    using False e unfolding round_double_def Let_def e_def [symmetric] k_def [symmetric] y_def [symmetric]
    by simp
  then show ?thesis using close by blast
qed

text \<open>For a ratio between 0 and 1 the threshold is computed without an exception.\<close>

lemma reads_of_unit:
  assumes "0 \<le> \<rho>" and "\<rho> \<le> 1"
  shows "\<exists>p. py_float_mul (Finite \<rho>) (Finite 1000) = Finite p"
proof -
  have "\<bar>\<rho> * 1000\<bar> < 2 ^ 53"
    using assms by simp
  then show ?thesis
    using round_double_finite [of "\<rho> * 1000"] by auto
qed

section \<open>Iterations as operations of the specification\<close>

lemma py_index_nat: "0 \<le> s \<Longrightarrow> s < int (length xs) \<Longrightarrow> py_index xs s = Inr (nat s)"
  by (simp add: py_index_def)

lemma thread_iter_process_iter:
  "thread_iter shards keys reads rnd = process_iter (int (length shards)) shards keys reads rnd"
  by (simp add: thread_iter_def process_iter_def)

lemma length_apply_op [simp]: "length (apply_op S shards op) = length shards"
  by (cases op) simp_all

lemma route_less: "1 \<le> S \<Longrightarrow> route S k < nat S"
  by (simp add: route_def nat_less_iff)

lemma process_iter_op:
  assumes "keys \<noteq> 0" and "1 \<le> S" and "length shards = nat S"
  shows "process_iter S shards keys reads rnd =
           Inr (op_accesses S shards (next_op keys reads rnd),
                apply_op S shards (next_op keys reads rnd), rnd_after 2 rnd)"
proof -
  obtain d1 rnd1 where n1: "next_rnd rnd = (d1, rnd1)" by (cases "next_rnd rnd")
  obtain d2 rnd2 where n2: "next_rnd rnd1 = (d2, rnd2)" by (cases "next_rnd rnd1")
  have s: "0 \<le> (d1 mod keys) mod S" "(d1 mod keys) mod S < int (length shards)"
    using assms by simp_all
  have r2: "rnd_after 2 rnd = rnd2"
    using n1 n2 by (simp add: numeral_2_eq_2)
  show ?thesis
    using assms n1 n2 r2 py_index_nat [OF s]
    by (simp add: process_iter_def next_op_def py_mod_def route_def store_read_def
        dict_get_def dict_set_def Let_def)
qed

lemma thread_iter_op:
  assumes "keys \<noteq> 0" and "1 \<le> S" and "length shards = nat S"
  shows "thread_iter shards keys reads rnd =
           Inr (op_accesses S shards (next_op keys reads rnd),
                apply_op S shards (next_op keys reads rnd), rnd_after 2 rnd)"
  using assms process_iter_op [OF assms] by (simp add: thread_iter_process_iter)

text \<open>Truncation and floor give the same threshold test on a draw modulo 1000.\<close>

lemma next_op_trunc:
  "next_op keys (if 0 \<le> p then \<lfloor>p\<rfloor> else \<lceil>p\<rceil>) rnd = next_op keys \<lfloor>p\<rfloor> rnd"
proof -
  have neg: "\<lceil>p\<rceil> \<le> 0" "\<lfloor>p\<rfloor> < 0" if "p < 0"
    using that by (simp_all add: ceiling_le_iff floor_less_iff)
  have "r < (if 0 \<le> p then \<lfloor>p\<rfloor> else \<lceil>p\<rceil>) \<longleftrightarrow> r < \<lfloor>p\<rfloor>" if "0 \<le> r" for r :: int
  proof (cases "0 \<le> p")
    case True
    then show ?thesis by simp
  next
    case False
    then have "\<lceil>p\<rceil> \<le> 0" "\<lfloor>p\<rfloor> < 0"
      using neg by simp_all
    then have "\<not> r < \<lceil>p\<rceil>" "\<not> r < \<lfloor>p\<rfloor>"
      using that by linarith+
    then show ?thesis using False by (simp only: if_False)
  qed
  then show ?thesis
    by (simp add: next_op_def Let_def)
qed

lemma draws_two:
  "draws (2 * Suc n) rnd =
     fst (next_rnd rnd) # fst (next_rnd (snd (next_rnd rnd))) # draws (2 * n) (rnd_after 2 rnd)"
  by (simp add: numeral_2_eq_2 split: prod.splits)

lemma rnd_after_add: "rnd_after (m + n) rnd = rnd_after n (rnd_after m rnd)"
  by (induction m arbitrary: rnd) simp_all

lemma ops_of_draws_Suc:
  "ops_of_draws K p (draws (2 * Suc n) rnd) =
     next_op K \<lfloor>p\<rfloor> rnd # ops_of_draws K p (draws (2 * n) (rnd_after 2 rnd))"
  by (simp only: draws_two ops_of_draws.simps) (simp add: next_op_def Let_def)

lemma thread_loop_ops:
  assumes "keys \<noteq> 0" and "1 \<le> S" and "reads = (if 0 \<le> p then \<lfloor>p\<rfloor> else \<lceil>p\<rceil>)"
  shows "length shards = nat S \<Longrightarrow>
         thread_loop n shards keys reads rnd =
           (foldl (apply_op S) shards (ops_of_draws keys p (draws (2 * n) rnd)),
            Running (rnd_after (2 * n) rnd) reads 0)"
proof (induction n arbitrary: shards rnd)
  case 0
  show ?case by simp
next
  case (Suc n)
  have len: "length (apply_op S shards (next_op keys \<lfloor>p\<rfloor> rnd)) = nat S"
    using Suc.prems by simp
  have ra: "rnd_after (2 * Suc n) rnd = rnd_after (2 * n) (rnd_after 2 rnd)"
    using rnd_after_add [of 2 "2 * n" rnd] by simp
  have op: "next_op keys reads rnd = next_op keys \<lfloor>p\<rfloor> rnd"
    unfolding assms(3) by (rule next_op_trunc)
  show ?case
    using thread_iter_op [OF assms(1,2) Suc.prems, of reads rnd] Suc.IH [OF len]
    by (simp only: thread_loop.simps ops_of_draws_Suc op ra) simp
qed

lemma process_loop_ops:
  assumes "keys \<noteq> 0" and "1 \<le> S" and "reads = (if 0 \<le> p then \<lfloor>p\<rfloor> else \<lceil>p\<rceil>)"
  shows "length shards = nat S \<Longrightarrow>
         process_loop n S shards keys reads rnd =
           Inr (foldl (apply_op S) shards (ops_of_draws keys p (draws (2 * n) rnd)),
                rnd_after (2 * n) rnd)"
proof (induction n arbitrary: shards rnd)
  case 0
  show ?case by simp
next
  case (Suc n)
  have len: "length (apply_op S shards (next_op keys \<lfloor>p\<rfloor> rnd)) = nat S"
    using Suc.prems by simp
  have ra: "rnd_after (2 * Suc n) rnd = rnd_after (2 * n) (rnd_after 2 rnd)"
    using rnd_after_add [of 2 "2 * n" rnd] by simp
  have op: "next_op keys reads rnd = next_op keys \<lfloor>p\<rfloor> rnd"
    unfolding assms(3) by (rule next_op_trunc)
  show ?case
    using process_iter_op [OF assms(1,2) Suc.prems, of reads rnd] Suc.IH [OF len]
    by (simp only: process_loop.simps ops_of_draws_Suc op ra) simp
qed

section \<open>The prefilled store\<close>

lemma length_prefilled [simp]: "length (prefilled K S) = nat S"
  by (simp add: prefilled_def)

lemma nth_prefilled:
  "j < nat S \<Longrightarrow>
   prefilled K S ! j = (\<lambda>k. if 0 \<le> k \<and> k < K \<and> k mod S = int j then Some 0 else None)"
  by (simp add: prefilled_def)

lemma prefilled_empty: "K \<le> 0 \<Longrightarrow> prefilled K S = replicate (nat S) Map.empty"
  by (rule nth_equalityI) (auto simp add: nth_prefilled fun_eq_iff)

lemma prefilled_step:
  assumes "1 \<le> S" and "0 \<le> i"
  shows "(prefilled i S)[nat (i mod S) := dict_set (prefilled i S ! nat (i mod S)) i 0] =
           prefilled (i + 1) S"
proof (rule nth_equalityI)
  show "length ((prefilled i S)[nat (i mod S) := dict_set (prefilled i S ! nat (i mod S)) i 0]) =
          length (prefilled (i + 1) S)"
    by simp
next
  fix j
  assume "j < length ((prefilled i S)[nat (i mod S) := dict_set (prefilled i S ! nat (i mod S)) i 0])"
  then have j: "j < nat S" by simp
  have m: "nat (i mod S) < nat S" "0 \<le> i mod S"
    using assms by (simp_all add: nat_less_iff)
  show "(prefilled i S)[nat (i mod S) := dict_set (prefilled i S ! nat (i mod S)) i 0] ! j =
          prefilled (i + 1) S ! j"
    using j m assms
    by (auto simp add: nth_list_update nth_prefilled dict_set_def fun_eq_iff)
qed

lemma prefill_append:
  "prefill S (xs @ ys) shards =
     (case prefill S xs shards of Inl e \<Rightarrow> Inl e | Inr shards' \<Rightarrow> prefill S ys shards')"
  by (induction xs arbitrary: shards) (simp_all split: sum.splits)

lemma prefill_upto:
  assumes "1 \<le> S"
  shows "prefill S (map int [0..<n]) (replicate (nat S) Map.empty) = Inr (prefilled (int n) S)"
proof (induction n)
  case 0
  show ?case by (simp add: prefilled_empty)
next
  case (Suc n)
  have s: "0 \<le> int n mod S" "int n mod S < int (length (prefilled (int n) S))"
    using assms by simp_all
  have "prefill S [int n] (prefilled (int n) S) = Inr (prefilled (int n + 1) S)"
    using assms py_index_nat [OF s] prefilled_step [OF assms, of "int n"]
    by (simp add: py_mod_def)
  then show ?case
    using Suc.IH by (simp add: prefill_append add.commute)
qed

lemma prefill_eq:
  assumes "1 \<le> S"
  shows "prefill S (py_range K) (replicate (nat S) Map.empty) = Inr (prefilled K S)"
proof (cases "0 \<le> K")
  case True
  then show ?thesis
    using prefill_upto [OF assms, of "nat K"] by (simp add: py_range_def)
next
  case False
  then show ?thesis
    by (simp add: py_range_def prefilled_empty)
qed

section \<open>Runs of threads\<close>

lemma thread_iter_keys0: "thread_iter shards 0 reads rnd = Inl ZeroDivisionError"
  by (simp add: thread_iter_def py_mod_def split: prod.splits)

lemma process_iter_keys0: "process_iter S shards 0 reads rnd = Inl ZeroDivisionError"
  by (simp add: process_iter_def py_mod_def split: prod.splits)

text \<open>A property of the store that every iteration keeps is kept by every run of threads.\<close>

lemma step_thread_keeps:
  assumes "\<And>sh reads rnd accs sh' rnd'.
             P sh \<Longrightarrow> thread_iter sh keys reads rnd = Inr (accs, sh', rnd') \<Longrightarrow> P sh'"
    and "P shards"
  shows "P (fst (step_thread keys shards t))"
  using assms by (cases "(keys, shards, t)" rule: step_thread.cases)
    (auto split: sum.splits)

lemma thread_loop_keeps:
  assumes "\<And>sh reads rnd accs sh' rnd'.
             P sh \<Longrightarrow> thread_iter sh keys reads rnd = Inr (accs, sh', rnd') \<Longrightarrow> P sh'"
  shows "P shards \<Longrightarrow> P (fst (thread_loop n shards keys reads rnd))"
proof (induction n arbitrary: shards rnd)
  case 0
  then show ?case by simp
next
  case (Suc n)
  show ?case
  proof (cases "thread_iter shards keys reads rnd")
    case (Inl e)
    then show ?thesis using Suc.prems by simp
  next
    case (Inr p)
    obtain accs sh' rnd' where p: "p = (accs, sh', rnd')" by (cases p)
    have "P sh'" using assms [OF Suc.prems] Inr p by simp
    then show ?thesis using Suc.IH [of sh' rnd'] Inr p by simp
  qed
qed

lemma finish_thread_keeps:
  assumes "\<And>sh reads rnd accs sh' rnd'.
             P sh \<Longrightarrow> thread_iter sh keys reads rnd = Inr (accs, sh', rnd') \<Longrightarrow> P sh'"
    and "P shards"
  shows "P (fst (finish_thread keys shards t))"
  using thread_loop_keeps [of P keys shards] assms by (cases t) simp_all

lemma run_schedule_keeps:
  assumes "\<And>sh reads rnd accs sh' rnd'.
             P sh \<Longrightarrow> thread_iter sh keys reads rnd = Inr (accs, sh', rnd') \<Longrightarrow> P sh'"
  shows "P shards \<Longrightarrow> P (fst (run_schedule keys sched (shards, ts)))"
proof (induction sched arbitrary: shards ts)
  case Nil
  then show ?case by simp
next
  case (Cons i sched)
  show ?case
  proof (cases "i < length ts")
    case True
    obtain sh' t' where st: "step_thread keys shards (ts ! i) = (sh', t')"
      by (cases "step_thread keys shards (ts ! i)")
    have "P sh'"
      using step_thread_keeps [of P keys shards "ts ! i"] assms Cons.prems st by simp
    then show ?thesis
      using Cons.IH [of sh' "ts[i := t']"] True st by simp
  next
    case False
    then show ?thesis using Cons.IH [OF Cons.prems] by simp
  qed
qed

lemma join_all_keeps:
  assumes "\<And>sh reads rnd accs sh' rnd'.
             P sh \<Longrightarrow> thread_iter sh keys reads rnd = Inr (accs, sh', rnd') \<Longrightarrow> P sh'"
  shows "P shards \<Longrightarrow> P (fst (join_all keys shards ts))"
proof (induction ts arbitrary: shards)
  case Nil
  then show ?case by simp
next
  case (Cons t ts)
  obtain sh' t' where f: "finish_thread keys shards t = (sh', t')"
    by (cases "finish_thread keys shards t")
  have "P sh'"
    using finish_thread_keeps [of P keys shards t] assms Cons.prems f by simp
  then have "P (fst (join_all keys sh' ts))"
    by (rule Cons.IH)
  then show ?case
    using f by (cases "join_all keys sh' ts") simp
qed

lemma threads_model_keeps:
  assumes "\<And>sh reads rnd accs sh' rnd'.
             P sh \<Longrightarrow> thread_iter sh (arg_keys a) reads rnd = Inr (accs, sh', rnd') \<Longrightarrow> P sh'"
    and "1 \<le> arg_shards a" and "P (prefilled (arg_keys a) (arg_shards a))"
  shows "\<exists>sh ts. threads_model a per sched = Inr (sh, ts) \<and> P sh"
proof -
  let ?K = "arg_keys a"
  let ?ts = "map (\<lambda>i. start_thread per (arg_read_ratio a) (arg_seed a) i) (py_range (arg_threads a))"
  obtain sh1 ts1 where r: "run_schedule ?K sched (prefilled ?K (arg_shards a), ?ts) = (sh1, ts1)"
    by (cases "run_schedule ?K sched (prefilled ?K (arg_shards a), ?ts)")
  have p1: "P sh1"
    using run_schedule_keeps [of P ?K _ sched ?ts, OF assms(1) assms(3)] r by simp
  obtain sh2 ts2 where j: "join_all ?K sh1 ts1 = (sh2, ts2)"
    by (cases "join_all ?K sh1 ts1")
  have "P sh2"
    using join_all_keeps [of P ?K sh1 ts1, OF assms(1) p1] j by simp
  then show ?thesis
    using prefill_eq [OF assms(2), of ?K] r j by (simp add: threads_model_def Let_def)
qed

text \<open>
  While no iteration can fail, no thread raises. \<open>Q\<close> is a property of the thresholds of the
  threads.
\<close>

lemma thread_loop_total:
  assumes "\<And>sh reads rnd. P sh \<Longrightarrow> Q reads \<Longrightarrow>
             \<exists>accs sh' rnd'. thread_iter sh keys reads rnd = Inr (accs, sh', rnd') \<and> P sh'"
    and "Q reads"
  shows "P shards \<Longrightarrow>
         \<exists>sh' rnd'. thread_loop n shards keys reads rnd = (sh', Running rnd' reads 0) \<and> P sh'"
proof (induction n arbitrary: shards rnd)
  case 0
  then show ?case by simp
next
  case (Suc n)
  obtain accs sh' rnd' where s: "thread_iter shards keys reads rnd = Inr (accs, sh', rnd')" "P sh'"
    using assms(1) [OF Suc.prems assms(2)] by blast
  show ?case using Suc.IH [OF s(2), of rnd'] s(1) by simp
qed

lemma step_thread_total:
  assumes "\<And>sh reads rnd. P sh \<Longrightarrow> Q reads \<Longrightarrow>
             \<exists>accs sh' rnd'. thread_iter sh keys reads rnd = Inr (accs, sh', rnd') \<and> P sh'"
    and "P shards" and "Q reads"
  shows "\<exists>sh' rnd' n'. step_thread keys shards (Running rnd reads n) = (sh', Running rnd' reads n')
           \<and> P sh'"
proof (cases n)
  case 0
  then show ?thesis using assms(2) by simp
next
  case (Suc m)
  obtain accs sh' rnd' where s: "thread_iter shards keys reads rnd = Inr (accs, sh', rnd')" "P sh'"
    using assms(1) [OF assms(2,3)] by blast
  then show ?thesis using Suc by simp
qed

lemma thread_tracebacks_empty_iff:
  "thread_tracebacks ts = [] \<longleftrightarrow> (\<forall>t \<in> set ts. \<exists>rnd reads n. t = Running rnd reads n)"
  by (induction ts rule: thread_tracebacks.induct) auto

lemma run_schedule_total:
  assumes "\<And>sh reads rnd. P sh \<Longrightarrow> Q reads \<Longrightarrow>
             \<exists>accs sh' rnd'. thread_iter sh keys reads rnd = Inr (accs, sh', rnd') \<and> P sh'"
  shows "P shards \<Longrightarrow> \<forall>t \<in> set ts. \<exists>rnd reads n. t = Running rnd reads n \<and> Q reads \<Longrightarrow>
         \<exists>sh' ts'. run_schedule keys sched (shards, ts) = (sh', ts') \<and> P sh'
                    \<and> (\<forall>t \<in> set ts'. \<exists>rnd reads n. t = Running rnd reads n \<and> Q reads)"
proof (induction sched arbitrary: shards ts)
  case Nil
  then show ?case by simp
next
  case (Cons i sched)
  show ?case
  proof (cases "i < length ts")
    case True
    then have "ts ! i \<in> set ts" by simp
    then obtain rnd reads n where t: "ts ! i = Running rnd reads n" and q: "Q reads"
      using Cons.prems(2) by blast
    obtain sh' rnd' n' where
      s: "step_thread keys shards (Running rnd reads n) = (sh', Running rnd' reads n')" "P sh'"
      using step_thread_total [of P Q keys shards reads rnd n] assms Cons.prems(1) q by blast
    have "\<forall>t \<in> set (ts[i := Running rnd' reads n']). \<exists>rnd reads n. t = Running rnd reads n \<and> Q reads"
      using Cons.prems(2) q by (auto dest!: set_update_subset_insert [THEN subsetD])
    then show ?thesis
      using Cons.IH [OF s(2), of "ts[i := Running rnd' reads n']"] True t s(1) by simp
  next
    case False
    then show ?thesis using Cons.IH [OF Cons.prems] by simp
  qed
qed

lemma join_all_total:
  assumes "\<And>sh reads rnd. P sh \<Longrightarrow> Q reads \<Longrightarrow>
             \<exists>accs sh' rnd'. thread_iter sh keys reads rnd = Inr (accs, sh', rnd') \<and> P sh'"
  shows "P shards \<Longrightarrow> \<forall>t \<in> set ts. \<exists>rnd reads n. t = Running rnd reads n \<and> Q reads \<Longrightarrow>
         \<exists>sh' ts'. join_all keys shards ts = (sh', ts') \<and> P sh' \<and> thread_tracebacks ts' = []"
proof (induction ts arbitrary: shards)
  case Nil
  then show ?case by simp
next
  case (Cons t ts)
  obtain rnd reads n where t: "t = Running rnd reads n" and q: "Q reads"
    using Cons.prems(2) by auto
  have rest: "\<forall>t \<in> set ts. \<exists>rnd reads n. t = Running rnd reads n \<and> Q reads"
    using Cons.prems(2) by simp
  obtain sh1 rnd1 where l: "thread_loop n shards keys reads rnd = (sh1, Running rnd1 reads 0)" "P sh1"
    using thread_loop_total [of P Q keys reads shards n rnd] assms Cons.prems(1) q by blast
  obtain sh2 ts2 where j: "join_all keys sh1 ts = (sh2, ts2)" "P sh2" "thread_tracebacks ts2 = []"
    using Cons.IH [OF l(2) rest] by blast
  show ?case using t l(1) j by simp
qed

lemma threads_model_total:
  assumes "\<And>sh reads rnd. P sh \<Longrightarrow> Q reads \<Longrightarrow>
             \<exists>accs sh' rnd'. thread_iter sh (arg_keys a) reads rnd = Inr (accs, sh', rnd') \<and> P sh'"
    and "1 \<le> arg_shards a" and "P (prefilled (arg_keys a) (arg_shards a))"
    and "reads_of (arg_read_ratio a) = Inr reads" and "Q reads"
  shows "\<exists>sh ts. threads_model a per sched = Inr (sh, ts) \<and> P sh \<and> thread_tracebacks ts = []"
proof -
  let ?K = "arg_keys a"
  let ?ts = "map (\<lambda>i. start_thread per (arg_read_ratio a) (arg_seed a) i) (py_range (arg_threads a))"
  have t0: "\<forall>t \<in> set ?ts. \<exists>rnd reads n. t = Running rnd reads n \<and> Q reads"
    using assms(4,5) by (auto simp add: start_thread_def)
  obtain sh1 ts1 where r: "run_schedule ?K sched (prefilled ?K (arg_shards a), ?ts) = (sh1, ts1)"
    "P sh1" "\<forall>t \<in> set ts1. \<exists>rnd reads n. t = Running rnd reads n \<and> Q reads"
    using run_schedule_total [of P Q ?K _ ?ts sched, OF assms(1) assms(3) t0] by blast
  obtain sh2 ts2 where j: "join_all ?K sh1 ts1 = (sh2, ts2)" "P sh2" "thread_tracebacks ts2 = []"
    using join_all_total [of P Q ?K sh1 ts1, OF assms(1) r(2) r(3)] by blast
  show ?thesis
    using prefill_eq [OF assms(2), of ?K] r(1) j by (simp add: threads_model_def Let_def)
qed

section \<open>The workload\<close>

lemma hd_ops_of_draws: "hd (ops_of_draws keys p (draws 2 rnd)) = next_op keys \<lfloor>p\<rfloor> rnd"
  using ops_of_draws_Suc [of keys p 0 rnd] by simp

lemma worker_thread_ops:
  assumes "keys \<noteq> 0" and "1 \<le> S" and "length shards = nat S"
    and "py_float_mul read_ratio (Finite 1000) = Finite p"
  shows "worker_thread shards keys per read_ratio seed tid =
       (foldl (apply_op S) shards
          (ops_of_draws keys p (draws (2 * nat per) (splitmix64 (seed + tid)))),
        Running (rnd_after (2 * nat per) (splitmix64 (seed + tid)))
          (if 0 \<le> p then \<lfloor>p\<rfloor> else \<lceil>p\<rceil>) 0)"
  using thread_loop_ops [OF assms(1,2) refl assms(3)] reads_of_Finite [OF assms(4)]
  by (simp add: worker_thread_def start_thread_def Let_def)

lemma worker_process_shards_ops:
  assumes "keys \<noteq> 0" and "1 \<le> S" and "py_float_mul read_ratio (Finite 1000) = Finite p"
  shows "worker_process_shards (keys, per, read_ratio, seed, pid, S) =
      Inr (foldl (apply_op S) (prefilled keys S)
            (ops_of_draws keys p (draws (2 * nat per) (splitmix64 (seed + pid)))))"
proof -
  have "length (prefilled keys S) = nat S" by simp
  then show ?thesis
    using process_loop_ops [OF assms(1,2) refl] prefill_eq [OF assms(2)]
      reads_of_Finite [OF assms(3)]
    by (simp add: worker_process_shards_def Let_def)
qed

text \<open>When the threshold cannot be computed, a worker ends before its first iteration.\<close>

lemma worker_raises:
  assumes "reads_of read_ratio = Inl e"
  shows "worker_thread shards keys per read_ratio seed tid = (shards, Raised e)"
    and "1 \<le> S \<Longrightarrow> worker_process_shards (keys, per, read_ratio, seed, pid, S) = Inl e"
  using assms prefill_eq [of S keys]
  by (simp_all add: worker_thread_def start_thread_def worker_process_shards_def)

lemma worker_raises_overflow:
  "worker_thread shards keys per (Finite (10 ^ 306)) seed tid = (shards, Raised OverflowError)"
  by (rule worker_raises [OF reads_of_overflow])

text \<open>
  Claim C1. In both execution models a worker draws from its own generator, seeded with
  \<open>seed + tid\<close> (\<open>seed + pid\<close>), and each iteration takes exactly two draws: the first gives
  the key, \<open>draw mod keys\<close>, the second gives \<open>r = draw mod 1000\<close>, and the iteration reads when
  \<open>r < floor (read_ratio * 1000)\<close> and writes otherwise, where \<open>read_ratio * 1000\<close> is the
  product of doubles the program computes, here a finite number \<open>p\<close>. So, for \<open>keys \<noteq> 0\<close>
  and \<open>S \<ge> 1\<close> shards: the threshold the workers compute is \<open>p\<close> truncated; an iteration of
  either worker makes the accesses of the operation the specification derives from the next
  two draws (a load for a read, a load and a store for a write), leaves the store that
  operation leaves, and advances the generator by two draws; a thread running alone for
  \<open>per\<close> iterations leaves the store that results from applying, in order, the operations
  derived from the first \<open>2 * per\<close> draws; one scheduled iteration of a thread applies the
  operation derived from its next two draws; and a worker process leaves the prefilled store
  with the same operations applied. (The source truncates the product towards zero; on a
  draw modulo 1000, which is not negative, the comparison agrees with the one against the
  floor.)
\<close>

theorem worker_operations:
  assumes "keys \<noteq> 0" and "1 \<le> S" and "length shards = nat S"
    and "py_float_mul read_ratio (Finite 1000) = Finite p"
  shows
    "reads_of read_ratio = Inr (if 0 \<le> p then \<lfloor>p\<rfloor> else \<lceil>p\<rceil>)
     \<and> thread_iter shards keys (if 0 \<le> p then \<lfloor>p\<rfloor> else \<lceil>p\<rceil>) rnd =
         Inr (op_accesses S shards (hd (ops_of_draws keys p (draws 2 rnd))),
              apply_op S shards (hd (ops_of_draws keys p (draws 2 rnd))),
              rnd_after 2 rnd)
     \<and> process_iter S shards keys (if 0 \<le> p then \<lfloor>p\<rfloor> else \<lceil>p\<rceil>) rnd =
         thread_iter shards keys (if 0 \<le> p then \<lfloor>p\<rfloor> else \<lceil>p\<rceil>) rnd
     \<and> worker_thread shards keys per read_ratio seed tid =
         (foldl (apply_op S) shards
            (ops_of_draws keys p (draws (2 * nat per) (splitmix64 (seed + tid)))),
          Running (rnd_after (2 * nat per) (splitmix64 (seed + tid)))
            (if 0 \<le> p then \<lfloor>p\<rfloor> else \<lceil>p\<rceil>) 0)
     \<and> start_thread (int (Suc n)) read_ratio seed tid =
         Running (splitmix64 (seed + tid)) (if 0 \<le> p then \<lfloor>p\<rfloor> else \<lceil>p\<rceil>) (Suc n)
     \<and> step_thread keys shards (Running rnd (if 0 \<le> p then \<lfloor>p\<rfloor> else \<lceil>p\<rceil>) (Suc n)) =
         (apply_op S shards (hd (ops_of_draws keys p (draws 2 rnd))),
          Running (rnd_after 2 rnd) (if 0 \<le> p then \<lfloor>p\<rfloor> else \<lceil>p\<rceil>) n)
     \<and> worker_process_shards (keys, per, read_ratio, seed, tid, S) =
         Inr (foldl (apply_op S) (prefilled keys S)
                (ops_of_draws keys p (draws (2 * nat per) (splitmix64 (seed + tid)))))"
proof -
  let ?reads = "if 0 \<le> p then \<lfloor>p\<rfloor> else \<lceil>p\<rceil>"
  let ?op = "hd (ops_of_draws keys p (draws 2 rnd))"
  have r: "reads_of read_ratio = Inr ?reads"
    by (rule reads_of_Finite [OF assms(4)])
  have op: "next_op keys ?reads rnd = ?op"
    by (simp only: hd_ops_of_draws next_op_trunc)
  have ti: "thread_iter shards keys ?reads rnd =
      Inr (op_accesses S shards ?op, apply_op S shards ?op, rnd_after 2 rnd)"
    using thread_iter_op [OF assms(1,2,3), of ?reads rnd] unfolding op .
  have pi: "process_iter S shards keys ?reads rnd = thread_iter shards keys ?reads rnd"
    using assms(2,3) by (simp add: thread_iter_process_iter)
  have wt: "worker_thread shards keys per read_ratio seed tid =
         (foldl (apply_op S) shards
            (ops_of_draws keys p (draws (2 * nat per) (splitmix64 (seed + tid)))),
          Running (rnd_after (2 * nat per) (splitmix64 (seed + tid))) ?reads 0)"
    by (rule worker_thread_ops [OF assms])
  have st: "start_thread (int (Suc n)) read_ratio seed tid =
         Running (splitmix64 (seed + tid)) ?reads (Suc n)"
    using r by (simp add: start_thread_def)
  have sp: "step_thread keys shards (Running rnd ?reads (Suc n)) =
         (apply_op S shards ?op, Running (rnd_after 2 rnd) ?reads n)"
    using ti by simp
  have wp: "worker_process_shards (keys, per, read_ratio, seed, tid, S) =
         Inr (foldl (apply_op S) (prefilled keys S)
                (ops_of_draws keys p (draws (2 * nat per) (splitmix64 (seed + tid)))))"
    by (rule worker_process_shards_ops [OF assms(1,2,4)])
  show ?thesis
    using r ti pi wt st sp wp by (intro conjI)
qed

text \<open>
  At the double nearest to 0.29 the product of doubles is 290, though the exact product
  lies below 290: with seed 286 the first iteration draws key 2 and \<open>r = 289\<close>, and reads.
  With seed 1 and ratio 0 the first four iterations write the keys 5, 0, 1 and 5.
\<close>

theorem worker_operations_witness:
  "(10::int) \<noteq> 0 \<and> (1::int) \<le> 2 \<and> length (prefilled 10 2) = nat 2
   \<and> py_float_mul (Finite (5224175567749775 / 2 ^ 54)) (Finite 1000) = Finite 290
   \<and> py_float_mul (Finite 0) (Finite 1000) = Finite 0
   \<and> reads_of (Finite (5224175567749775 / 2 ^ 54)) = Inr 290
   \<and> thread_iter (prefilled 10 2) 10 290 (splitmix64 286) =
       Inr ([Load 0 2 0], prefilled 10 2, rnd_after 2 (splitmix64 286))
   \<and> worker_thread (prefilled 10 2) 10 1 (Finite (5224175567749775 / 2 ^ 54)) 286 0 =
       (prefilled 10 2, Running (rnd_after 2 (splitmix64 286)) 290 0)
   \<and> worker_thread (prefilled 10 2) 10 4 (Finite 0) 1 0 =
       (foldl (apply_op 2) (prefilled 10 2) [Write 5, Write 0, Write 1, Write 5],
        Running (rnd_after 8 (splitmix64 1)) 0 0)
   \<and> worker_process_shards (10, 4, Finite 0, 1, 0, 2) =
       Inr (foldl (apply_op 2) (prefilled 10 2) [Write 5, Write 0, Write 1, Write 5])"
proof -
  have d: "draws (2 * nat 4) (splitmix64 (1 + 0)) =
      [10451216379200822465, 13757245211066428519, 17911839290282890590,
       8196980753821780235, 8195237237126968761, 14072917602864530048,
       16184226688143867045, 9648886400068060533]"
    by (simp add: eval_nat_numeral next_rnd_def splitmix64_def MASK64_def Let_def)
  have o: "ops_of_draws 10 0 (draws (2 * nat 4) (splitmix64 (1 + 0))) =
      [Write 5, Write 0, Write 1, Write 5]"
    unfolding d by simp
  have d2: "draws 2 (splitmix64 286) = [14173269494356648192, 6711596475796357289]"
    by (simp add: eval_nat_numeral next_rnd_def splitmix64_def MASK64_def Let_def)
  have o2: "ops_of_draws 10 290 (draws 2 (splitmix64 286)) = [Read 2]"
    unfolding d2 by simp
  have o3: "ops_of_draws 10 290 (draws (2 * nat 1) (splitmix64 (286 + 0))) = [Read 2]"
    using o2 by simp
  have h: "(10::int) \<noteq> 0" "(1::int) \<le> 2" "length (prefilled 10 2) = nat 2"
    by simp_all
  have p29: "py_float_mul (Finite (5224175567749775 / 2 ^ 54)) (Finite 1000) = Finite 290"
    by (simp add: round_double_eval)
  have p0: "py_float_mul (Finite 0) (Finite 1000) = Finite 0"
    by (simp add: round_double_def)
  have s: "store_read 2 (prefilled 10 2) 2 = 0" "route 2 2 = 0"
    by (simp_all add: store_read_def route_def nth_prefilled)
  show ?thesis
    using worker_operations [OF h p29, of "splitmix64 286" 1 286 0]
      worker_operations [OF h p0, of _ 4 1 0] h p29 p0
    unfolding o o2 o3 by (simp add: s)
qed

section \<open>Routing\<close>

lemma route_eq_iff: "1 \<le> S \<Longrightarrow> route S k = j \<longleftrightarrow> k mod S = int j"
  by (auto simp add: route_def)

text \<open>An iteration, written out: both branches go to the shard at position \<open>k mod S\<close>.\<close>

lemma process_iter_explicit:
  assumes "keys \<noteq> 0" and "1 \<le> S" and "length shards = nat S"
  shows "(let k = fst (next_rnd rnd) mod keys;
              r = fst (next_rnd (snd (next_rnd rnd))) mod 1000;
              j = nat (k mod S);
              v = (case (shards ! j) k of None \<Rightarrow> 0 | Some v \<Rightarrow> v)
          in process_iter S shards keys reads rnd =
               Inr (if r < reads then ([Load j k v], shards, rnd_after 2 rnd)
                    else ([Load j k v, Store j k (v + 1)],
                          shards[j := (shards ! j)(k \<mapsto> v + 1)], rnd_after 2 rnd)))"
  using process_iter_op [OF assms, of reads rnd]
  by (simp add: next_op_def Let_def route_def store_read_def)

lemma routed_prefilled: "1 \<le> S \<Longrightarrow> routed S (prefilled K S)"
  by (auto simp add: routed_def nth_prefilled route_eq_iff dom_def split: if_splits)

lemma routed_apply_op:
  assumes "1 \<le> S" and "routed S shards"
  shows "routed S (apply_op S shards op)"
proof (cases op)
  case (Read key)
  then show ?thesis using assms(2) by simp
next
  case (Write key)
  have "route S key < length shards"
    using assms by (simp add: routed_def route_less)
  then show ?thesis
    using assms(2) Write by (auto simp add: routed_def nth_list_update split: if_splits)
qed

lemma routed_foldl:
  assumes "1 \<le> S"
  shows "routed S shards \<Longrightarrow> routed S (foldl (apply_op S) shards ops)"
  by (induction ops arbitrary: shards) (simp_all add: routed_apply_op [OF assms])

lemma op_key_next_op [simp]: "op_key (next_op keys reads rnd) = fst (next_rnd rnd) mod keys"
  by (simp add: next_op_def Let_def)

lemma thread_iter_routed:
  assumes "1 \<le> S" and "routed S sh" and "thread_iter sh keys reads rnd = Inr (accs, sh', rnd')"
  shows "routed S sh'"
proof -
  have k: "keys \<noteq> 0"
    using assms(3) by (auto simp add: thread_iter_keys0)
  have len: "length sh = nat S"
    using assms(2) by (simp add: routed_def)
  show ?thesis
    using thread_iter_op [OF k assms(1) len, of reads rnd] assms(3)
      routed_apply_op [OF assms(1,2)] by simp
qed

text \<open>
  Claim C3. With \<open>S \<ge> 1\<close> shards, every access routes a key \<open>k\<close> to shard \<open>k mod S\<close>, at
  prefill time and afterwards, in both execution models. The prefill puts key \<open>i\<close> of
  \<open>[0, keys)\<close> into the shard at position \<open>i mod S\<close> and nowhere else. An iteration of a
  thread and an iteration of a worker process (with \<open>keys \<noteq> 0\<close>, on a store of \<open>S\<close> shards)
  do the same: with \<open>k\<close> the key drawn, a read loads \<open>k\<close> from the shard at position
  \<open>k mod S\<close>, and a write loads \<open>k\<close> from that shard and stores it there, changing that shard
  at \<open>k\<close> only. So the store the threads leave at the join, for every schedule and every
  ratio, and the store a worker process ends with, have every key in the shard it routes
  to: a key's shard never changes within a run.
\<close>

theorem routing_stable:
  assumes "1 \<le> S"
  shows
    "(\<exists>sh. prefill S (py_range keys) (replicate (nat S) Map.empty) = Inr sh
        \<and> length sh = nat S
        \<and> (\<forall>j k. j < nat S \<longrightarrow>
             (sh ! j) k = (if 0 \<le> k \<and> k < keys \<and> k mod S = int j then Some 0 else None))
        \<and> routed S sh)
     \<and> (length shards = nat S \<and> keys \<noteq> 0 \<longrightarrow>
          (let k = fst (next_rnd rnd) mod keys;
               r = fst (next_rnd (snd (next_rnd rnd))) mod 1000;
               j = nat (k mod S);
               v = (case (shards ! j) k of None \<Rightarrow> 0 | Some v \<Rightarrow> v)
           in thread_iter shards keys reads rnd =
                Inr (if r < reads then ([Load j k v], shards, rnd_after 2 rnd)
                     else ([Load j k v, Store j k (v + 1)],
                           shards[j := (shards ! j)(k \<mapsto> v + 1)], rnd_after 2 rnd))
              \<and> process_iter S shards keys reads rnd = thread_iter shards keys reads rnd))
     \<and> (routed S shards \<and> keys \<noteq> 0 \<longrightarrow>
          (\<exists>accs sh' rnd'. thread_iter shards keys reads rnd = Inr (accs, sh', rnd')
             \<and> routed S sh'))
     \<and> (arg_shards a = S \<longrightarrow>
          (\<exists>sh ts. threads_model a per sched = Inr (sh, ts) \<and> routed S sh))
     \<and> (keys \<noteq> 0 \<and> py_float_mul read_ratio (Finite 1000) = Finite p \<longrightarrow>
          (\<exists>sh. worker_process_shards (keys, per, read_ratio, seed, pid, S) = Inr sh
             \<and> routed S sh))"
proof (intro conjI impI)
  show "\<exists>sh. prefill S (py_range keys) (replicate (nat S) Map.empty) = Inr sh
        \<and> length sh = nat S
        \<and> (\<forall>j k. j < nat S \<longrightarrow>
             (sh ! j) k = (if 0 \<le> k \<and> k < keys \<and> k mod S = int j then Some 0 else None))
        \<and> routed S sh"
    using prefill_eq [OF assms, of keys] routed_prefilled [OF assms, of keys]
    by (simp add: nth_prefilled)
next
  assume h: "length shards = nat S \<and> keys \<noteq> 0"
  then have len: "length shards = nat S" and k: "keys \<noteq> 0" by simp_all
  have "thread_iter shards keys reads rnd = process_iter S shards keys reads rnd"
    using len assms by (simp add: thread_iter_process_iter)
  then show "let k = fst (next_rnd rnd) mod keys;
               r = fst (next_rnd (snd (next_rnd rnd))) mod 1000;
               j = nat (k mod S);
               v = (case (shards ! j) k of None \<Rightarrow> 0 | Some v \<Rightarrow> v)
           in thread_iter shards keys reads rnd =
                Inr (if r < reads then ([Load j k v], shards, rnd_after 2 rnd)
                     else ([Load j k v, Store j k (v + 1)],
                           shards[j := (shards ! j)(k \<mapsto> v + 1)], rnd_after 2 rnd))
              \<and> process_iter S shards keys reads rnd = thread_iter shards keys reads rnd"
    using process_iter_explicit [OF k assms len, of rnd reads] by (simp add: Let_def)
next
  assume h: "routed S shards \<and> keys \<noteq> 0"
  then have len: "length shards = nat S" by (simp add: routed_def)
  show "\<exists>accs sh' rnd'. thread_iter shards keys reads rnd = Inr (accs, sh', rnd') \<and> routed S sh'"
    using thread_iter_op [OF _ assms len, of keys reads rnd] routed_apply_op [OF assms] h
    by simp
next
  assume s: "arg_shards a = S"
  show "\<exists>sh ts. threads_model a per sched = Inr (sh, ts) \<and> routed S sh"
    using threads_model_keeps [of "routed S" a per sched] thread_iter_routed [OF assms]
      routed_prefilled [OF assms] assms s by blast
next
  assume h: "keys \<noteq> 0 \<and> py_float_mul read_ratio (Finite 1000) = Finite p"
  show "\<exists>sh. worker_process_shards (keys, per, read_ratio, seed, pid, S) = Inr sh \<and> routed S sh"
    using worker_process_shards_ops [OF _ assms, of keys read_ratio p per seed pid] h
      routed_foldl [OF assms routed_prefilled [OF assms]] by simp
qed

theorem routing_stable_witness:
  "(1::int) \<le> 2 \<and> length (prefilled 10 2) = nat 2 \<and> (10::int) \<noteq> 0
   \<and> routed 2 (prefilled 10 2)
   \<and> py_float_mul (Finite (1 / 2)) (Finite 1000) = Finite 500
   \<and> thread_iter (prefilled 10 2) 10 290 (splitmix64 286) =
       Inr ([Load 0 2 0], prefilled 10 2, rnd_after 2 (splitmix64 286))
   \<and> thread_iter (prefilled 10 2) 10 0 (splitmix64 1) =
       Inr ([Load 1 5 0, Store 1 5 1],
            (prefilled 10 2)[1 := (prefilled 10 2 ! 1)(5 \<mapsto> 1)], rnd_after 2 (splitmix64 1))
   \<and> process_iter 2 (prefilled 10 2) 10 0 (splitmix64 1) =
       thread_iter (prefilled 10 2) 10 0 (splitmix64 1)
   \<and> (\<exists>sh. prefill 2 (py_range 10) (replicate (nat 2) Map.empty) = Inr sh
         \<and> (sh ! 1) 5 = Some 0 \<and> (sh ! 0) 5 = None \<and> routed 2 sh)
   \<and> (\<exists>sh ts. threads_model
          \<lparr>arg_threads = 2, arg_iterations = 4, arg_keys = 10, arg_read_ratio = Finite (1 / 2),
           arg_seed = 1, arg_model = ''threads'', arg_shards = 2\<rparr> 2 [0, 1, 1, 0] = Inr (sh, ts)
         \<and> routed 2 sh)
   \<and> (\<exists>sh. worker_process_shards (10, 4, Finite (1 / 2), 1, 0, 2) = Inr sh \<and> routed 2 sh)"
proof -
  have h: "(1::int) \<le> 2" by simp
  have len: "length (prefilled 10 2) = nat 2" by simp
  have r: "routed 2 (prefilled 10 2)"
    by (rule routed_prefilled [OF h])
  have p: "py_float_mul (Finite (1 / 2)) (Finite 1000) = Finite 500"
    by (simp add: round_double_eval)
  have d1: "next_rnd (splitmix64 286) = (14173269494356648192, 11400714819323198771)"
    "fst (next_rnd 11400714819323198771) = 6711596475796357289"
    by (simp_all add: next_rnd_def splitmix64_def MASK64_def Let_def)
  have d2: "next_rnd (splitmix64 1) = (10451216379200822465, 11400714819323198486)"
    "fst (next_rnd 11400714819323198486) = 13757245211066428519"
    by (simp_all add: next_rnd_def splitmix64_def MASK64_def Let_def)
  have v: "(prefilled 10 2 ! 0) 2 = Some 0" "(prefilled 10 2 ! Suc 0) 5 = Some 0"
    by (simp_all add: nth_prefilled)
  have a: "thread_iter (prefilled 10 2) 10 290 (splitmix64 286) =
       Inr ([Load 0 2 0], prefilled 10 2, rnd_after 2 (splitmix64 286))"
    using routing_stable [OF h, of 10 "prefilled 10 2" "splitmix64 286" 290] len
    unfolding Let_def d1 fst_conv snd_conv by (simp add: v)
  have b: "thread_iter (prefilled 10 2) 10 0 (splitmix64 1) =
       Inr ([Load 1 5 0, Store 1 5 1],
            (prefilled 10 2)[1 := (prefilled 10 2 ! 1)(5 \<mapsto> 1)], rnd_after 2 (splitmix64 1))
     \<and> process_iter 2 (prefilled 10 2) 10 0 (splitmix64 1) =
       thread_iter (prefilled 10 2) 10 0 (splitmix64 1)"
    using routing_stable [OF h, of 10 "prefilled 10 2" "splitmix64 1" 0] len
    unfolding Let_def d2 fst_conv snd_conv by (simp add: v)
  have c: "\<exists>sh. prefill 2 (py_range 10) (replicate (nat 2) Map.empty) = Inr sh
         \<and> (sh ! 1) 5 = Some 0 \<and> (sh ! 0) 5 = None \<and> routed 2 sh"
  proof -
    obtain sh where sh: "prefill 2 (py_range 10) (replicate (nat 2) Map.empty) = Inr sh"
      "\<forall>j k. j < nat 2 \<longrightarrow>
         (sh ! j) k = (if 0 \<le> k \<and> k < 10 \<and> k mod 2 = int j then Some 0 else None)"
      "routed 2 sh"
      using routing_stable [OF h, of 10, THEN conjunct1] by blast
    have "(sh ! 1) 5 = Some 0" "(sh ! 0) 5 = None"
      using sh(2) by simp_all
    then show ?thesis using sh(1,3) by blast
  qed
  have d: "\<exists>sh ts. threads_model
          \<lparr>arg_threads = 2, arg_iterations = 4, arg_keys = 10, arg_read_ratio = Finite (1 / 2),
           arg_seed = 1, arg_model = ''threads'', arg_shards = 2\<rparr> 2 [0, 1, 1, 0] = Inr (sh, ts)
         \<and> routed 2 sh"
    using routing_stable [OF h, where per = 2 and sched = "[0, 1, 1, 0]"
        and a = "\<lparr>arg_threads = 2, arg_iterations = 4, arg_keys = 10,
           arg_read_ratio = Finite (1 / 2), arg_seed = 1, arg_model = ''threads'',
           arg_shards = 2\<rparr>"]
    by simp
  have e: "\<exists>sh. worker_process_shards (10, 4, Finite (1 / 2), 1, 0, 2) = Inr sh \<and> routed 2 sh"
    using routing_stable [OF h, where keys = 10 and per = 4 and read_ratio = "Finite (1 / 2)"
        and p = 500 and seed = 1 and pid = 0] p
    by simp
  show ?thesis
    using h len r p a b c d e by (intro conjI) simp_all
qed

section \<open>The key set\<close>

lemma holds_keys_prefilled: "1 \<le> S \<Longrightarrow> holds_keys K S (prefilled K S)"
  by (auto simp add: holds_keys_def nth_prefilled route_eq_iff dom_def split: if_splits)

lemma holds_keys_apply_op:
  assumes "1 \<le> S" and "holds_keys K S shards" and "0 \<le> op_key op" and "op_key op < K"
  shows "holds_keys K S (apply_op S shards op)"
proof (cases op)
  case (Read key)
  then show ?thesis using assms(2) by simp
next
  case (Write key)
  have r: "route S key < nat S"
    using assms(1) by (rule route_less)
  have "key \<in> dom (shards ! route S key)"
    using assms Write r by (simp add: holds_keys_def)
  then have "dom ((shards ! route S key)(key \<mapsto> store_read S shards key + 1)) =
      dom (shards ! route S key)"
    by auto
  then show ?thesis
    using assms(2) Write r by (simp add: holds_keys_def nth_list_update)
qed

lemma holds_keys_foldl:
  assumes "1 \<le> S"
  shows "holds_keys K S shards \<Longrightarrow> \<forall>op \<in> set ops. 0 \<le> op_key op \<and> op_key op < K \<Longrightarrow>
         holds_keys K S (foldl (apply_op S) shards ops)"
  by (induction ops arbitrary: shards) (simp_all add: holds_keys_apply_op [OF assms])

lemma op_key_ops_of_draws:
  "1 \<le> K \<Longrightarrow> \<forall>op \<in> set (ops_of_draws K p ds). 0 \<le> op_key op \<and> op_key op < K"
  by (induction K p ds rule: ops_of_draws.induct) (simp_all add: Let_def)

lemma key_set_holds_keys:
  assumes "1 \<le> S" and "holds_keys K S shards"
  shows "key_set shards = {0..<K}"
proof -
  have len: "length shards = nat S"
    and d: "\<And>j. j < nat S \<Longrightarrow> dom (shards ! j) = {k. 0 \<le> k \<and> k < K \<and> route S k = j}"
    using assms(2) by (simp_all add: holds_keys_def)
  have "set shards = (\<lambda>j. shards ! j) ` {..<nat S}"
    using len by (auto simp add: set_conv_nth)
  then have "key_set shards = (\<Union>j \<in> {..<nat S}. dom (shards ! j))"
    by (simp add: key_set_def)
  also have "\<dots> = (\<Union>j \<in> {..<nat S}. {k. 0 \<le> k \<and> k < K \<and> route S k = j})"
    using d by simp
  also have "\<dots> = {0..<K}"
    using route_less [OF assms(1)] by auto
  finally show ?thesis .
qed

lemma thread_iter_holds_keys:
  assumes "1 \<le> K" and "1 \<le> S" and "holds_keys K S sh"
  shows "\<exists>accs sh' rnd'. thread_iter sh K reads rnd = Inr (accs, sh', rnd') \<and> holds_keys K S sh'"
proof -
  have len: "length sh = nat S"
    using assms(3) by (simp add: holds_keys_def)
  have k: "K \<noteq> 0" using assms(1) by simp
  have "holds_keys K S (apply_op S sh (next_op K reads rnd))"
    using holds_keys_apply_op [OF assms(2,3), of "next_op K reads rnd"] assms(1) by simp
  then show ?thesis
    using thread_iter_op [OF k assms(2) len, of reads rnd] by simp
qed

text \<open>
  Claim C10. With \<open>K \<ge> 1\<close> keys and \<open>S \<ge> 1\<close> shards, and a ratio whose product with 1000
  is a finite double: the key \<open>k\<close> of every iteration is \<open>draw mod K\<close>, which lies in
  \<open>[0, K)\<close>. In a store that holds exactly the keys of \<open>[0, K)\<close>, each in its shard, the shard
  at position \<open>k mod S\<close> holds \<open>k\<close> with some value \<open>v\<close>, and the iteration of either worker
  loads this \<open>v\<close> from that shard (the default of \<^verbatim>\<open>get(k, 0)\<close> is not used), stores \<open>v + 1\<close>
  there when it writes, does not fail, and leaves a store that holds exactly the keys of
  \<open>[0, K)\<close> again. Hence at the join of the threads, for every schedule, no thread has
  raised and the key set of the shared store is \<open>{0, ..., K - 1}\<close>, and a worker process
  ends with a private store whose key set is \<open>{0, ..., K - 1}\<close>.
\<close>

theorem key_set_fixed:
  assumes "1 \<le> K" and "1 \<le> S" and "py_float_mul read_ratio (Finite 1000) = Finite p"
  shows
    "(holds_keys K S shards \<longrightarrow>
        (let k = fst (next_rnd rnd) mod K;
             r = fst (next_rnd (snd (next_rnd rnd))) mod 1000;
             j = nat (k mod S)
         in 0 \<le> k \<and> k < K
            \<and> (\<exists>v. (shards ! j) k = Some v
                  \<and> thread_iter shards K reads rnd =
                      Inr (if r < reads then ([Load j k v], shards, rnd_after 2 rnd)
                           else ([Load j k v, Store j k (v + 1)],
                                 shards[j := (shards ! j)(k \<mapsto> v + 1)], rnd_after 2 rnd)))
            \<and> process_iter S shards K reads rnd = thread_iter shards K reads rnd)
        \<and> (\<exists>accs sh' rnd'. thread_iter shards K reads rnd = Inr (accs, sh', rnd')
              \<and> holds_keys K S sh' \<and> key_set sh' = {0..<K}))
     \<and> (arg_keys a = K \<and> arg_shards a = S \<and> arg_read_ratio a = read_ratio \<longrightarrow>
          (\<exists>sh ts. threads_model a per sched = Inr (sh, ts) \<and> holds_keys K S sh
             \<and> key_set sh = {0..<K} \<and> thread_tracebacks ts = []))
     \<and> (\<exists>sh. worker_process_shards (K, per, read_ratio, seed, pid, S) = Inr sh
           \<and> holds_keys K S sh \<and> key_set sh = {0..<K})"
proof (intro conjI impI)
  assume h: "holds_keys K S shards"
  let ?k = "fst (next_rnd rnd) mod K"
  let ?j = "nat (?k mod S)"
  have len: "length shards = nat S"
    using h by (simp add: holds_keys_def)
  have k: "K \<noteq> 0" using assms(1) by simp
  have kr: "0 \<le> ?k" "?k < K" using assms(1) by simp_all
  have "?k \<in> dom (shards ! route S ?k)"
    using h assms(1) route_less [OF assms(2), of ?k] by (simp add: holds_keys_def)
  then obtain v where v: "(shards ! ?j) ?k = Some v"
    by (auto simp add: route_def)
  have eq: "process_iter S shards K reads rnd = thread_iter shards K reads rnd"
    using len assms(2) by (simp add: thread_iter_process_iter)
  show "let k = fst (next_rnd rnd) mod K;
             r = fst (next_rnd (snd (next_rnd rnd))) mod 1000;
             j = nat (k mod S)
         in 0 \<le> k \<and> k < K
            \<and> (\<exists>v. (shards ! j) k = Some v
                  \<and> thread_iter shards K reads rnd =
                      Inr (if r < reads then ([Load j k v], shards, rnd_after 2 rnd)
                           else ([Load j k v, Store j k (v + 1)],
                                 shards[j := (shards ! j)(k \<mapsto> v + 1)], rnd_after 2 rnd)))
            \<and> process_iter S shards K reads rnd = thread_iter shards K reads rnd"
    using process_iter_explicit [OF k assms(2) len, of rnd reads] kr v eq
    by (simp add: Let_def)
  let ?sh = "apply_op S shards (next_op K reads rnd)"
  have hk: "holds_keys K S ?sh"
    using holds_keys_apply_op [OF assms(2) h, of "next_op K reads rnd"] assms(1) by simp
  show "\<exists>accs sh' rnd'. thread_iter shards K reads rnd = Inr (accs, sh', rnd')
              \<and> holds_keys K S sh' \<and> key_set sh' = {0..<K}"
    using thread_iter_op [OF k assms(2) len, of reads rnd] hk key_set_holds_keys [OF assms(2) hk]
    by simp
next
  assume "arg_keys a = K \<and> arg_shards a = S \<and> arg_read_ratio a = read_ratio"
  then have a: "arg_keys a = K" "arg_shards a = S" "arg_read_ratio a = read_ratio" by simp_all
  have "\<exists>sh ts. threads_model a per sched = Inr (sh, ts) \<and> holds_keys K S sh \<and> thread_tracebacks ts = []"
    using threads_model_total [of "holds_keys K S" "\<lambda>r. True" a _ per sched]
      thread_iter_holds_keys [OF assms(1,2)] holds_keys_prefilled [OF assms(2), of K] assms(2) a
      reads_of_Finite [OF assms(3)]
    by simp
  then show "\<exists>sh ts. threads_model a per sched = Inr (sh, ts) \<and> holds_keys K S sh
             \<and> key_set sh = {0..<K} \<and> thread_tracebacks ts = []"
    using key_set_holds_keys [OF assms(2)] by blast
next
  have k: "K \<noteq> 0" using assms(1) by simp
  let ?sh = "foldl (apply_op S) (prefilled K S)
            (ops_of_draws K p (draws (2 * nat per) (splitmix64 (seed + pid))))"
  have hk: "holds_keys K S ?sh"
    using holds_keys_foldl [OF assms(2) holds_keys_prefilled [OF assms(2)] op_key_ops_of_draws [OF assms(1)]]
    by simp
  show "\<exists>sh. worker_process_shards (K, per, read_ratio, seed, pid, S) = Inr sh
           \<and> holds_keys K S sh \<and> key_set sh = {0..<K}"
    using worker_process_shards_ops [OF k assms(2,3)] hk key_set_holds_keys [OF assms(2) hk]
    by simp
qed

theorem key_set_fixed_witness:
  "(1::int) \<le> 10 \<and> (1::int) \<le> 2
   \<and> py_float_mul (Finite (1 / 2)) (Finite 1000) = Finite 500
   \<and> holds_keys 10 2 (prefilled 10 2)
   \<and> fst (next_rnd (splitmix64 1)) mod 10 = 5
   \<and> (prefilled 10 2 ! 1) 5 = Some 0
   \<and> thread_iter (prefilled 10 2) 10 500 (splitmix64 1) =
       Inr ([Load 1 5 0, Store 1 5 1],
            (prefilled 10 2)[1 := (prefilled 10 2 ! 1)(5 \<mapsto> 1)], rnd_after 2 (splitmix64 1))
   \<and> (\<exists>sh ts. threads_model
          \<lparr>arg_threads = 2, arg_iterations = 4, arg_keys = 10, arg_read_ratio = Finite (1 / 2),
           arg_seed = 1, arg_model = ''threads'', arg_shards = 2\<rparr> 2 [0, 1, 1, 0] = Inr (sh, ts)
         \<and> key_set sh = {0..<10} \<and> thread_tracebacks ts = [])
   \<and> (\<exists>sh. worker_process_shards (10, 4, Finite (1 / 2), 1, 0, 2) = Inr sh
         \<and> key_set sh = {0..<10})"
proof -
  have h: "(1::int) \<le> 10" "(1::int) \<le> 2" by simp_all
  have p: "py_float_mul (Finite (1 / 2)) (Finite 1000) = Finite 500"
    by (simp add: round_double_eval)
  have hk: "holds_keys 10 2 (prefilled 10 2)"
    by (rule holds_keys_prefilled [OF h(2)])
  have d: "next_rnd (splitmix64 1) = (10451216379200822465, 11400714819323198486)"
    "fst (next_rnd 11400714819323198486) = 13757245211066428519"
    by (simp_all add: next_rnd_def splitmix64_def MASK64_def Let_def)
  have v: "(prefilled 10 2 ! 1) 5 = Some 0" "(prefilled 10 2 ! Suc 0) 5 = Some 0"
    by (simp_all add: nth_prefilled)
  note t = key_set_fixed [OF h p, where shards = "prefilled 10 2" and rnd = "splitmix64 1"
        and reads = 500 and per = 2 and sched = "[0, 1, 1, 0]" and seed = 1 and pid = 0
        and a = "\<lparr>arg_threads = 2, arg_iterations = 4, arg_keys = 10,
           arg_read_ratio = Finite (1 / 2), arg_seed = 1, arg_model = ''threads'',
           arg_shards = 2\<rparr>"]
  have a: "thread_iter (prefilled 10 2) 10 500 (splitmix64 1) =
       Inr ([Load 1 5 0, Store 1 5 1],
            (prefilled 10 2)[1 := (prefilled 10 2 ! 1)(5 \<mapsto> 1)], rnd_after 2 (splitmix64 1))"
    using t [THEN conjunct1] hk unfolding Let_def d fst_conv snd_conv by (simp add: v)
  have b: "\<exists>sh ts. threads_model
          \<lparr>arg_threads = 2, arg_iterations = 4, arg_keys = 10, arg_read_ratio = Finite (1 / 2),
           arg_seed = 1, arg_model = ''threads'', arg_shards = 2\<rparr> 2 [0, 1, 1, 0] = Inr (sh, ts)
         \<and> key_set sh = {0..<10} \<and> thread_tracebacks ts = []"
    using t [THEN conjunct2, THEN conjunct1] by auto
  have c: "\<exists>sh. worker_process_shards (10, 2, Finite (1 / 2), 1, 0, 2) = Inr sh
         \<and> key_set sh = {0..<10}"
    using t [THEN conjunct2, THEN conjunct2] by auto
  have c': "\<exists>sh. worker_process_shards (10, 4, Finite (1 / 2), 1, 0, 2) = Inr sh
         \<and> key_set sh = {0..<10}"
    using key_set_fixed [OF h p, where per = 4 and seed = 1 and pid = 0,
        THEN conjunct2, THEN conjunct2] by auto
  have k5: "fst (next_rnd (splitmix64 1)) mod 10 = 5"
    unfolding d by simp
  show ?thesis
    using h p hk k5 v(1) a b c' by (intro conjI)
qed

section \<open>Prefill and runs without iterations\<close>

lemma run_schedule_idle:
  "\<forall>t \<in> set ts. (\<exists>rnd reads. t = Running rnd reads 0) \<or> (\<exists>e. t = Raised e) \<Longrightarrow>
   run_schedule keys sched (shards, ts) = (shards, ts)"
proof (induction sched)
  case Nil
  show ?case by simp
next
  case (Cons i sched)
  show ?case
  proof (cases "i < length ts")
    case True
    then have "ts ! i \<in> set ts" by simp
    then have "step_thread keys shards (ts ! i) = (shards, ts ! i)"
      using Cons.prems by auto
    then show ?thesis
      using Cons.IH [OF Cons.prems] True by simp
  next
    case False
    then show ?thesis using Cons.IH [OF Cons.prems] by simp
  qed
qed

lemma join_all_idle:
  "\<forall>t \<in> set ts. (\<exists>rnd reads. t = Running rnd reads 0) \<or> (\<exists>e. t = Raised e) \<Longrightarrow>
   join_all keys shards ts = (shards, ts)"
  by (induction ts) auto

lemma threads_model_idle:
  assumes "1 \<le> arg_shards a"
  shows "threads_model a 0 sched =
     Inr (prefilled (arg_keys a) (arg_shards a),
          map (\<lambda>i. start_thread 0 (arg_read_ratio a) (arg_seed a) i) (py_range (arg_threads a)))"
proof -
  let ?ts = "map (\<lambda>i. start_thread 0 (arg_read_ratio a) (arg_seed a) i) (py_range (arg_threads a))"
  have idle: "\<forall>t \<in> set ?ts. (\<exists>rnd reads. t = Running rnd reads 0) \<or> (\<exists>e. t = Raised e)"
    by (auto simp add: start_thread_def split: sum.splits)
  show ?thesis
    using prefill_eq [OF assms, of "arg_keys a"] run_schedule_idle [OF idle] join_all_idle [OF idle]
    by (simp add: threads_model_def Let_def)
qed

text \<open>
  Claim C4. With \<open>S \<ge> 1\<close> shards the prefill succeeds and inserts exactly the keys
  \<open>0, ..., K - 1\<close>, each with value 0, key \<open>i\<close> into shard \<open>i mod S\<close>: shard \<open>j\<close> of the
  resulting store maps \<open>k\<close> to 0 when \<open>0 \<le> k < K\<close> and \<open>k mod S = j\<close>, and holds nothing
  else, so the key set of the store is \<open>{0, ..., K - 1}\<close>. A run with zero iterations per
  worker leaves exactly this store: at the join of the threads, for every schedule and
  every ratio; and, when the product of the ratio with 1000 is a finite double, so that the
  workers compute their threshold without an exception, in a worker process, which then
  returns, and with no thread having raised.
\<close>

theorem prefill_contents:
  assumes "1 \<le> S"
  shows
    "\<exists>sh. prefill S (py_range K) (replicate (nat S) Map.empty) = Inr sh
       \<and> length sh = nat S
       \<and> (\<forall>j k. j < nat S \<longrightarrow>
            (sh ! j) k = (if 0 \<le> k \<and> k < K \<and> k mod S = int j then Some 0 else None))
       \<and> key_set sh = {0..<K}
       \<and> (arg_keys a = K \<and> arg_shards a = S \<longrightarrow>
            (\<exists>ts. threads_model a 0 sched = Inr (sh, ts)))
       \<and> (py_float_mul read_ratio (Finite 1000) = Finite p \<longrightarrow>
            worker_process_shards (K, 0, read_ratio, seed, pid, S) = Inr sh
            \<and> (arg_keys a = K \<and> arg_shards a = S \<and> arg_read_ratio a = read_ratio \<longrightarrow>
                 (\<exists>ts. threads_model a 0 sched = Inr (sh, ts) \<and> thread_tracebacks ts = [])))"
proof (intro exI [of _ "prefilled K S"] conjI impI allI)
  show "prefill S (py_range K) (replicate (nat S) Map.empty) = Inr (prefilled K S)"
    by (rule prefill_eq [OF assms])
  show "length (prefilled K S) = nat S" by simp
  show "key_set (prefilled K S) = {0..<K}"
    by (rule key_set_holds_keys [OF assms holds_keys_prefilled [OF assms]])
next
  fix j k
  assume "j < nat S"
  then show "(prefilled K S ! j) k = (if 0 \<le> k \<and> k < K \<and> k mod S = int j then Some 0 else None)"
    by (simp add: nth_prefilled)
next
  assume "arg_keys a = K \<and> arg_shards a = S"
  then show "\<exists>ts. threads_model a 0 sched = Inr (prefilled K S, ts)"
    using threads_model_idle [of a sched] assms by auto
next
  assume "py_float_mul read_ratio (Finite 1000) = Finite p"
  then show "worker_process_shards (K, 0, read_ratio, seed, pid, S) = Inr (prefilled K S)"
    using prefill_eq [OF assms, of K] reads_of_Finite [of read_ratio p]
    by (simp add: worker_process_shards_def)
next
  assume p: "py_float_mul read_ratio (Finite 1000) = Finite p"
    and a: "arg_keys a = K \<and> arg_shards a = S \<and> arg_read_ratio a = read_ratio"
  let ?ts = "map (\<lambda>i. start_thread 0 (arg_read_ratio a) (arg_seed a) i) (py_range (arg_threads a))"
  have "thread_tracebacks ?ts = []"
    using a reads_of_Finite [OF p]
    by (simp only: thread_tracebacks_empty_iff) (auto simp add: start_thread_def)
  then show "\<exists>ts. threads_model a 0 sched = Inr (prefilled K S, ts) \<and> thread_tracebacks ts = []"
    using threads_model_idle [of a sched] assms a by auto
qed

theorem prefill_contents_witness:
  "(1::int) \<le> 2
   \<and> py_float_mul (Finite (8106479329266893 / 2 ^ 53)) (Finite 1000) = Finite 900
   \<and> (\<exists>sh. prefill 2 (py_range 3) (replicate (nat 2) Map.empty) = Inr sh
         \<and> length sh = 2
         \<and> (sh ! 0) 0 = Some 0 \<and> (sh ! 1) 1 = Some 0 \<and> (sh ! 0) 2 = Some 0
         \<and> (sh ! 0) 1 = None \<and> (sh ! 1) 3 = None
         \<and> key_set sh = {0..<3}
         \<and> worker_process_shards (3, 0, Finite (8106479329266893 / 2 ^ 53), 42, 0, 2) = Inr sh
         \<and> (\<exists>ts. threads_model
              \<lparr>arg_threads = 2, arg_iterations = 1, arg_keys = 3,
               arg_read_ratio = Finite (8106479329266893 / 2 ^ 53),
               arg_seed = 42, arg_model = ''threads'', arg_shards = 2\<rparr> 0 [1, 0] = Inr (sh, ts)
              \<and> thread_tracebacks ts = []))"
proof -
  let ?a = "\<lparr>arg_threads = 2, arg_iterations = 1, arg_keys = 3,
               arg_read_ratio = Finite (8106479329266893 / 2 ^ 53),
               arg_seed = 42, arg_model = ''threads'', arg_shards = 2\<rparr>"
  have h: "(1::int) \<le> 2" by simp
  have p: "py_float_mul (Finite (8106479329266893 / 2 ^ 53)) (Finite 1000) = Finite 900"
    by (simp add: round_double_eval)
  obtain sh where sh: "prefill 2 (py_range 3) (replicate (nat 2) Map.empty) = Inr sh"
    "length sh = nat 2"
    "\<forall>j k. j < nat 2 \<longrightarrow>
        (sh ! j) k = (if 0 \<le> k \<and> k < 3 \<and> k mod 2 = int j then Some 0 else None)"
    "key_set sh = {0..<3}"
    and run: "py_float_mul (Finite (8106479329266893 / 2 ^ 53)) (Finite 1000) = Finite 900 \<longrightarrow>
       worker_process_shards (3, 0, Finite (8106479329266893 / 2 ^ 53), 42, 0, 2) = Inr sh
       \<and> (arg_keys ?a = 3 \<and> arg_shards ?a = 2
            \<and> arg_read_ratio ?a = Finite (8106479329266893 / 2 ^ 53) \<longrightarrow>
          (\<exists>ts. threads_model ?a 0 [1, 0] = Inr (sh, ts) \<and> thread_tracebacks ts = []))"
    using prefill_contents [OF h, of 3 ?a "[1, 0]" "Finite (8106479329266893 / 2 ^ 53)" 900 42 0]
    by blast
  have "(sh ! 0) 0 = Some 0" "(sh ! 1) 1 = Some 0" "(sh ! 0) 2 = Some 0"
    "(sh ! 0) 1 = None" "(sh ! 1) 3 = None"
    using sh(3) by simp_all
  moreover have "worker_process_shards (3, 0, Finite (8106479329266893 / 2 ^ 53), 42, 0, 2) = Inr sh"
    "\<exists>ts. threads_model ?a 0 [1, 0] = Inr (sh, ts) \<and> thread_tracebacks ts = []"
    using run p by simp_all
  ultimately show ?thesis
    using h p sh(1,2,4) by auto
qed

section \<open>Runs that only read\<close>

lemma product_1: "py_float_mul (Finite 1) (Finite 1000) = Finite 1000"
  by (simp add: round_double_eval)

lemma product_0: "py_float_mul (Finite 0) (Finite 1000) = Finite 0"
  by (simp add: round_double_def)

lemma next_op_all_reads: "next_op keys 1000 rnd = Read (fst (next_rnd rnd) mod keys)"
  by (simp add: next_op_def Let_def)

lemma ops_of_draws_reads: "\<forall>op \<in> set (ops_of_draws K 1000 ds). \<exists>k. op = Read k"
  by (induction K "1000 :: real" ds rule: ops_of_draws.induct) (simp_all add: Let_def)

lemma foldl_reads:
  "\<forall>op \<in> set ops. \<exists>k. op = Read k \<Longrightarrow> foldl (apply_op S) shards ops = shards"
  by (induction ops) auto

text \<open>
  Claim C7. With \<open>read_ratio = 1.0\<close> the threshold is 1000 and every draw modulo 1000 is
  below it, so (for \<open>S \<ge> 1\<close> shards and \<open>keys \<noteq> 0\<close>) every iteration is a read: it loads the
  key from the shard the key routes to and returns the store it was given; a thread running
  alone leaves the store as it found it; a worker process ends with the store its prefill
  built; and at the join of the threads, for every schedule and every number of iterations,
  the shared store is the prefilled store and no thread has raised.
\<close>

theorem read_only_run:
  assumes "1 \<le> S" and "keys \<noteq> 0"
  shows
    "reads_of (Finite 1) = Inr 1000
     \<and> (length shards = nat S \<longrightarrow>
        thread_iter shards keys 1000 rnd =
          Inr ([Load (route S (fst (next_rnd rnd) mod keys)) (fst (next_rnd rnd) mod keys)
                  (store_read S shards (fst (next_rnd rnd) mod keys))],
               shards, rnd_after 2 rnd)
        \<and> process_iter S shards keys 1000 rnd = thread_iter shards keys 1000 rnd
        \<and> fst (worker_thread shards keys per (Finite 1) seed tid) = shards)
     \<and> prefill S (py_range keys) (replicate (nat S) Map.empty) = Inr (prefilled keys S)
     \<and> worker_process_shards (keys, per, Finite 1, seed, tid, S) = Inr (prefilled keys S)
     \<and> (arg_keys a = keys \<and> arg_shards a = S \<and> arg_read_ratio a = Finite 1 \<longrightarrow>
          (\<exists>ts. threads_model a per sched = Inr (prefilled keys S, ts)
             \<and> thread_tracebacks ts = []))"
proof (intro conjI impI)
  show r: "reads_of (Finite 1) = Inr 1000"
    by (rule reads_of_1)
  show "prefill S (py_range keys) (replicate (nat S) Map.empty) = Inr (prefilled keys S)"
    by (rule prefill_eq [OF assms(1)])
  show "worker_process_shards (keys, per, Finite 1, seed, tid, S) = Inr (prefilled keys S)"
    using worker_process_shards_ops [OF assms(2,1) product_1, of per seed tid]
      foldl_reads [OF ops_of_draws_reads] by simp
next
  assume len: "length shards = nat S"
  show "thread_iter shards keys 1000 rnd =
          Inr ([Load (route S (fst (next_rnd rnd) mod keys)) (fst (next_rnd rnd) mod keys)
                  (store_read S shards (fst (next_rnd rnd) mod keys))],
               shards, rnd_after 2 rnd)"
    using thread_iter_op [OF assms(2,1) len, of 1000 rnd]
    by (simp only: next_op_all_reads apply_op.simps op_accesses.simps)
  show "process_iter S shards keys 1000 rnd = thread_iter shards keys 1000 rnd"
    using len assms(1) by (simp add: thread_iter_process_iter)
  show "fst (worker_thread shards keys per (Finite 1) seed tid) = shards"
    using worker_thread_ops [OF assms(2,1) len product_1, of per seed tid]
      foldl_reads [OF ops_of_draws_reads] by simp
next
  assume "arg_keys a = keys \<and> arg_shards a = S \<and> arg_read_ratio a = Finite 1"
  then have a: "arg_keys a = keys" "arg_shards a = S" "arg_read_ratio a = Finite 1" by simp_all
  have step: "\<exists>accs sh' rnd'. thread_iter sh (arg_keys a) reads rnd = Inr (accs, sh', rnd')
      \<and> sh' = prefilled keys S" if "sh = prefilled keys S" and "reads = 1000" for sh reads rnd
  proof -
    have len: "length sh = nat S" using that by simp
    show ?thesis
      using thread_iter_op [OF assms(2,1) len, of 1000 rnd] that a
      by (simp only: next_op_all_reads apply_op.simps) simp
  qed
  show "\<exists>ts. threads_model a per sched = Inr (prefilled keys S, ts) \<and> thread_tracebacks ts = []"
    using threads_model_total [of "\<lambda>sh. sh = prefilled keys S" "\<lambda>r. r = 1000" a 1000 per sched]
      step assms(1) a reads_of_1
    by simp
qed

theorem read_only_run_witness:
  "(1::int) \<le> 2 \<and> (10::int) \<noteq> 0 \<and> length (prefilled 10 2) = nat 2
   \<and> thread_iter (prefilled 10 2) 10 1000 (splitmix64 1) =
       Inr ([Load 1 5 0], prefilled 10 2, rnd_after 2 (splitmix64 1))
   \<and> worker_process_shards (10, 4, Finite 1, 1, 0, 2) = Inr (prefilled 10 2)
   \<and> (\<exists>ts. threads_model
          \<lparr>arg_threads = 2, arg_iterations = 4, arg_keys = 10, arg_read_ratio = Finite 1,
           arg_seed = 1, arg_model = ''threads'', arg_shards = 2\<rparr> 2 [0, 1, 1, 0] =
          Inr (prefilled 10 2, ts) \<and> thread_tracebacks ts = [])"
proof -
  have h: "(1::int) \<le> 2" "(10::int) \<noteq> 0" by simp_all
  have len: "length (prefilled 10 2) = nat 2" by simp
  have k: "fst (next_rnd (splitmix64 1)) mod 10 = 5"
    by (simp add: next_rnd_def splitmix64_def MASK64_def Let_def)
  have s: "route 2 5 = 1" "store_read 2 (prefilled 10 2) 5 = 0"
    by (simp_all add: route_def store_read_def nth_prefilled)
  note t = read_only_run [OF h, where shards = "prefilled 10 2" and rnd = "splitmix64 1"
        and per = 2 and sched = "[0, 1, 1, 0]"
        and a = "\<lparr>arg_threads = 2, arg_iterations = 4, arg_keys = 10,
           arg_read_ratio = Finite 1, arg_seed = 1, arg_model = ''threads'',
           arg_shards = 2\<rparr>"]
  have a: "thread_iter (prefilled 10 2) 10 1000 (splitmix64 1) =
       Inr ([Load 1 5 0], prefilled 10 2, rnd_after 2 (splitmix64 1))"
    using t [THEN conjunct2, THEN conjunct1] len unfolding k s by simp
  have b: "worker_process_shards (10, 4, Finite 1, 1, 0, 2) = Inr (prefilled 10 2)"
    using read_only_run [OF h, where per = 4 and seed = 1 and tid = 0] by simp
  have c: "\<exists>ts. threads_model
          \<lparr>arg_threads = 2, arg_iterations = 4, arg_keys = 10, arg_read_ratio = Finite 1,
           arg_seed = 1, arg_model = ''threads'', arg_shards = 2\<rparr> 2 [0, 1, 1, 0] =
          Inr (prefilled 10 2, ts) \<and> thread_tracebacks ts = []"
    using t by simp
  show ?thesis
    using h len a b c by (intro conjI)
qed

section \<open>Runs that only write\<close>

lemma store_read_apply_write:
  assumes "1 \<le> S" and "length shards = nat S"
  shows "store_read S (apply_op S shards (Write k')) k =
           store_read S shards k + (if k' = k then 1 else 0)"
proof -
  have "route S k' < length shards" "route S k < length shards"
    using assms by (simp_all add: route_less)
  then show ?thesis
    by (simp add: store_read_def nth_list_update)
qed

lemma store_read_writes:
  assumes "1 \<le> S"
  shows "length shards = nat S \<Longrightarrow>
         store_read S (foldl (apply_op S) shards (replicate n (Write k))) k =
           store_read S shards k + int n"
proof (induction n arbitrary: shards)
  case 0
  show ?case by simp
next
  case (Suc n)
  have len: "length (apply_op S shards (Write k)) = nat S"
    using Suc.prems by simp
  show ?case
    using Suc.IH [OF len] store_read_apply_write [OF assms Suc.prems, of k k] by simp
qed

lemma store_read_prefilled: "1 \<le> S \<Longrightarrow> store_read S (prefilled K S) k = 0"
  using route_less [of S k] by (simp add: store_read_def nth_prefilled)

lemma next_op_all_writes: "next_op keys 0 rnd = Write (fst (next_rnd rnd) mod keys)"
  by (simp add: next_op_def Let_def)

lemma ops_of_draws_writes:
  "\<forall>i<n. draws (2 * n) rnd ! (2 * i) mod K = k \<Longrightarrow>
   ops_of_draws K 0 (draws (2 * n) rnd) = replicate n (Write k)"
proof (induction n arbitrary: rnd)
  case 0
  show ?case by simp
next
  case (Suc n)
  let ?d1 = "fst (next_rnd rnd)" and ?d2 = "fst (next_rnd (snd (next_rnd rnd)))"
  let ?rest = "draws (2 * n) (rnd_after 2 rnd)"
  have d: "draws (2 * Suc n) rnd = ?d1 # ?d2 # ?rest"
    by (rule draws_two)
  have first: "?d1 mod K = k"
    using Suc.prems [rule_format, of 0] unfolding d by simp
  have "\<forall>i<n. ?rest ! (2 * i) mod K = k"
  proof (intro allI impI)
    fix i
    assume "i < n"
    then show "?rest ! (2 * i) mod K = k"
      using Suc.prems [rule_format, of "Suc i"] unfolding d by simp
  qed
  then have "ops_of_draws K 0 ?rest = replicate n (Write k)"
    by (rule Suc.IH)
  then show ?case
    using first unfolding d by (simp add: Let_def)
qed

lemma finish_thread_step:
  "(case step_thread keys shards t of (shards', t') \<Rightarrow> finish_thread keys shards' t') =
     finish_thread keys shards t"
  by (cases "(keys, shards, t)" rule: step_thread.cases) (auto split: sum.splits)

lemma run_schedule_single:
  "(case run_schedule keys sched (shards, [t]) of
      (shards', ts') \<Rightarrow> join_all keys shards' ts') = join_all keys shards [t]"
proof (induction sched arbitrary: shards t)
  case Nil
  show ?case by simp
next
  case (Cons i sched)
  show ?case
  proof (cases "i = 0")
    case True
    obtain sh' t' where s: "step_thread keys shards t = (sh', t')"
      by (cases "step_thread keys shards t")
    have "finish_thread keys sh' t' = finish_thread keys shards t"
      using finish_thread_step [of keys shards t] s by simp
    then show ?thesis
      using Cons.IH [of sh' t'] True s by simp
  next
    case False
    then show ?thesis using Cons.IH [of shards t] by simp
  qed
qed

lemma threads_model_single:
  assumes "arg_threads a = 1" and "1 \<le> arg_shards a"
  shows "threads_model a per sched =
     Inr (case worker_thread (prefilled (arg_keys a) (arg_shards a)) (arg_keys a) per
                (arg_read_ratio a) (arg_seed a) 0 of (shards, t) \<Rightarrow> (shards, [t]))"
proof -
  have r: "py_range (arg_threads a) = [0]"
    using assms(1) by (simp add: py_range_def)
  show ?thesis
    using prefill_eq [OF assms(2), of "arg_keys a"]
      run_schedule_single [of "arg_keys a" sched
        "prefilled (arg_keys a) (arg_shards a)"
        "start_thread per (arg_read_ratio a) (arg_seed a) 0"]
    by (simp add: threads_model_def worker_thread_def Let_def r split: prod.splits)
qed

text \<open>
  Claim C6. With \<open>read_ratio = 0\<close> the threshold is 0 and no draw modulo 1000 is below it,
  so (for \<open>S \<ge> 1\<close> shards and \<open>K \<noteq> 0\<close>) every iteration is a write: it loads the counter of
  its key from the shard the key routes to, taking 0 for an absent key, and stores the value
  plus one there; both workers do the same. Hence when the \<open>n\<close> iterations of a worker all
  draw the same key \<open>k\<close> (the draws at the even positions of its stream are \<open>k\<close> modulo \<open>K\<close>),
  a thread running alone raises the stored value of \<open>k\<close> by exactly \<open>n\<close>, a worker process
  ends with \<open>k\<close> at \<open>n\<close>, and a run of the shared-memory model with a single worker ends,
  for every schedule, with \<open>k\<close> at \<open>n\<close> and no thread having raised.
\<close>

theorem writes_only_count:
  assumes "1 \<le> S" and "K \<noteq> 0"
    and "\<forall>i<n. draws (2 * n) (splitmix64 (seed + tid)) ! (2 * i) mod K = k"
  shows
    "reads_of (Finite 0) = Inr 0
     \<and> (length shards = nat S \<longrightarrow>
        thread_iter shards K 0 rnd =
          Inr ([Load (route S (fst (next_rnd rnd) mod K)) (fst (next_rnd rnd) mod K)
                  (store_read S shards (fst (next_rnd rnd) mod K)),
                Store (route S (fst (next_rnd rnd) mod K)) (fst (next_rnd rnd) mod K)
                  (store_read S shards (fst (next_rnd rnd) mod K) + 1)],
               shards[route S (fst (next_rnd rnd) mod K) :=
                 (shards ! route S (fst (next_rnd rnd) mod K))
                   (fst (next_rnd rnd) mod K \<mapsto>
                      store_read S shards (fst (next_rnd rnd) mod K) + 1)],
               rnd_after 2 rnd)
        \<and> process_iter S shards K 0 rnd = thread_iter shards K 0 rnd
        \<and> store_read S (fst (worker_thread shards K (int n) (Finite 0) seed tid)) k =
            store_read S shards k + int n)
     \<and> (\<exists>sh. worker_process_shards (K, int n, Finite 0, seed, tid, S) = Inr sh
           \<and> store_read S sh k = int n)
     \<and> (arg_threads a = 1 \<and> arg_keys a = K \<and> arg_shards a = S \<and> arg_read_ratio a = Finite 0
          \<and> arg_seed a = seed \<and> tid = 0 \<longrightarrow>
          (\<exists>sh ts. threads_model a (int n) sched = Inr (sh, ts) \<and> store_read S sh k = int n
             \<and> thread_tracebacks ts = []))"
proof (intro conjI impI)
  show "reads_of (Finite 0) = Inr 0"
    by (rule reads_of_0)
next
  assume len: "length shards = nat S"
  show "thread_iter shards K 0 rnd =
          Inr ([Load (route S (fst (next_rnd rnd) mod K)) (fst (next_rnd rnd) mod K)
                  (store_read S shards (fst (next_rnd rnd) mod K)),
                Store (route S (fst (next_rnd rnd) mod K)) (fst (next_rnd rnd) mod K)
                  (store_read S shards (fst (next_rnd rnd) mod K) + 1)],
               shards[route S (fst (next_rnd rnd) mod K) :=
                 (shards ! route S (fst (next_rnd rnd) mod K))
                   (fst (next_rnd rnd) mod K \<mapsto>
                      store_read S shards (fst (next_rnd rnd) mod K) + 1)],
               rnd_after 2 rnd)"
    using thread_iter_op [OF assms(2,1) len, of 0 rnd]
    by (simp only: next_op_all_writes apply_op.simps op_accesses.simps)
  show "process_iter S shards K 0 rnd = thread_iter shards K 0 rnd"
    using len assms(1) by (simp add: thread_iter_process_iter)
  show "store_read S (fst (worker_thread shards K (int n) (Finite 0) seed tid)) k =
            store_read S shards k + int n"
    using worker_thread_ops [OF assms(2,1) len product_0, of "int n" seed tid]
      ops_of_draws_writes [OF assms(3)] store_read_writes [OF assms(1) len, of n k]
    by simp
next
  have len: "length (prefilled K S) = nat S" by simp
  show "\<exists>sh. worker_process_shards (K, int n, Finite 0, seed, tid, S) = Inr sh
           \<and> store_read S sh k = int n"
    using worker_process_shards_ops [OF assms(2,1) product_0, of "int n" seed tid]
      ops_of_draws_writes [OF assms(3)] store_read_writes [OF assms(1) len, of n k]
      store_read_prefilled [OF assms(1), of K k]
    by simp
next
  assume "arg_threads a = 1 \<and> arg_keys a = K \<and> arg_shards a = S \<and> arg_read_ratio a = Finite 0
          \<and> arg_seed a = seed \<and> tid = 0"
  then have a: "arg_threads a = 1" "arg_keys a = K" "arg_shards a = S"
    "arg_read_ratio a = Finite 0" "arg_seed a = seed" "tid = 0" by simp_all
  have len: "length (prefilled K S) = nat S" by simp
  have w: "worker_thread (prefilled K S) K (int n) (Finite 0) seed 0 =
       (foldl (apply_op S) (prefilled K S) (replicate n (Write k)),
        Running (rnd_after (2 * n) (splitmix64 seed)) 0 0)"
    using worker_thread_ops [OF assms(2,1) len product_0, of "int n" seed tid]
      ops_of_draws_writes [OF assms(3)] a(6)
    by simp
  have "store_read S (foldl (apply_op S) (prefilled K S) (replicate n (Write k))) k = int n"
    using store_read_writes [OF assms(1) len, of n k] store_read_prefilled [OF assms(1), of K k]
    by simp
  then show "\<exists>sh ts. threads_model a (int n) sched = Inr (sh, ts) \<and> store_read S sh k = int n
             \<and> thread_tracebacks ts = []"
    using threads_model_single [of a "int n" sched] a assms(1) w
    by simp
qed

theorem writes_only_count_witness:
  "(1::int) \<le> 2 \<and> (5::int) \<noteq> 0
   \<and> draws (2 * 2) (splitmix64 (1 + 0)) ! 0 mod 5 = 0
   \<and> draws (2 * 2) (splitmix64 (1 + 0)) ! 2 mod 5 = 0
   \<and> (\<exists>sh. worker_process_shards (5, int 2, Finite 0, 1, 0, 2) = Inr sh
         \<and> store_read 2 sh 0 = int 2)
   \<and> (\<exists>sh ts. threads_model
          \<lparr>arg_threads = 1, arg_iterations = 2, arg_keys = 5, arg_read_ratio = Finite 0,
           arg_seed = 1, arg_model = ''threads'', arg_shards = 2\<rparr> (int 2) [0, 0] = Inr (sh, ts)
         \<and> store_read 2 sh 0 = int 2)"
proof -
  have d: "draws (2 * 2) (splitmix64 (1 + 0)) =
      [10451216379200822465, 13757245211066428519, 17911839290282890590,
       8196980753821780235]"
    by (simp add: eval_nat_numeral next_rnd_def splitmix64_def MASK64_def Let_def)
  have k: "\<forall>i<2. draws (2 * 2) (splitmix64 (1 + 0)) ! (2 * i) mod 5 = 0"
    unfolding d by (simp add: eval_nat_numeral less_Suc_eq)
  have h: "(1::int) \<le> 2" "(5::int) \<noteq> 0" by simp_all
  have e: "draws (2 * 2) (splitmix64 (1 + 0)) ! 0 mod 5 = 0"
    "draws (2 * 2) (splitmix64 (1 + 0)) ! 2 mod 5 = 0"
    unfolding d by simp_all
  note t = writes_only_count [OF h k, where sched = "[0, 0]"
        and a = "\<lparr>arg_threads = 1, arg_iterations = 2, arg_keys = 5,
           arg_read_ratio = Finite 0, arg_seed = 1, arg_model = ''threads'',
           arg_shards = 2\<rparr>"]
  have p: "\<exists>sh. worker_process_shards (5, int 2, Finite 0, 1, 0, 2) = Inr sh
         \<and> store_read 2 sh 0 = int 2"
    using t [THEN conjunct2, THEN conjunct2, THEN conjunct1] .
  have q: "\<exists>sh ts. threads_model
          \<lparr>arg_threads = 1, arg_iterations = 2, arg_keys = 5, arg_read_ratio = Finite 0,
           arg_seed = 1, arg_model = ''threads'', arg_shards = 2\<rparr> (int 2) [0, 0] = Inr (sh, ts)
         \<and> store_read 2 sh 0 = int 2"
    using t [THEN conjunct2, THEN conjunct2, THEN conjunct2] by auto
  show ?thesis
    using h e p q by (intro conjI)
qed

section \<open>The outcome of the program\<close>

lemma threads_model_returns:
  "1 \<le> arg_shards a \<Longrightarrow> \<exists>sh ts. threads_model a per sched = Inr (sh, ts)"
  using threads_model_keeps [of "\<lambda>sh. True" a per sched] by simp

lemma threads_model_keys0:
  assumes "arg_keys a = 0"
  shows "\<exists>sh ts. threads_model a per sched = Inr (sh, ts)"
proof -
  let ?sh = "replicate (nat (arg_shards a)) (Map.empty :: shard)"
  let ?ts = "map (\<lambda>i. start_thread per (arg_read_ratio a) (arg_seed a) i) (py_range (arg_threads a))"
  obtain sh1 ts1 where r: "run_schedule (arg_keys a) sched (?sh, ?ts) = (sh1, ts1)"
    by (cases "run_schedule (arg_keys a) sched (?sh, ?ts)")
  obtain sh2 ts2 where j: "join_all (arg_keys a) sh1 ts1 = (sh2, ts2)"
    by (cases "join_all (arg_keys a) sh1 ts1")
  have "prefill (arg_shards a) (py_range (arg_keys a)) ?sh = Inr ?sh"
    using assms by (simp add: py_range_def)
  then show ?thesis
    using r j by (simp add: threads_model_def Let_def)
qed

lemma main_threads_emits:
  assumes "arg_model a = ''threads''" and "arg_threads a \<noteq> 0" and "1 \<le> arg_shards a"
  shows "\<exists>errs. main a env sched = emit errs a env (arg_iterations a div arg_threads a)"
proof -
  obtain sh ts where "threads_model a (arg_iterations a div arg_threads a) sched = Inr (sh, ts)"
    using threads_model_returns [OF assms(3)] by blast
  then show ?thesis
    using assms(1,2) by (auto simp add: main_def py_floordiv_def)
qed

lemma stdout_main_cases:
  "stdout (main a env sched) = [] \<or>
   stdout (main a env sched) = stdout (emit [] a env (arg_iterations a div arg_threads a))"
  by (simp add: main_def py_floordiv_def uncaught_def emit_def split: sum.splits prod.splits)

text \<open>
  Claim C5. For a worker count of at least 1 and a total iteration count of at least 0,
  every record the program prints has in its field \<open>iterations\<close> the worker count times the
  quotient of the total by the worker count. The quotient truncates: the reported number is
  at most the total and falls short of it by less than the worker count. For 7 iterations
  and 3 workers the record reports 6.
\<close>

theorem reported_iterations:
  assumes "1 \<le> arg_threads a" and "0 \<le> arg_iterations a"
    and "r \<in> set (stdout (main a env sched))"
  shows "res_iterations r = arg_threads a * (arg_iterations a div arg_threads a)
         \<and> res_iterations r \<le> arg_iterations a
         \<and> arg_iterations a - res_iterations r < arg_threads a"
proof -
  let ?t = "arg_threads a" and ?i = "arg_iterations a"
  have "stdout (main a env sched) = stdout (emit [] a env (?i div ?t))"
    using stdout_main_cases [of a env sched] assms(3) by auto
  then have r: "res_iterations r = ?t * (?i div ?t)"
    using assms(3) by (simp add: emit_def)
  have "?i - ?t * (?i div ?t) = ?i mod ?t"
    by (simp add: minus_mult_div_eq_mod)
  moreover have "0 \<le> ?i mod ?t" "?i mod ?t < ?t"
    using assms(1) by simp_all
  ultimately show ?thesis
    using r by simp
qed

theorem reported_iterations_witness:
  "(1::int) \<le> 3 \<and> (0::int) \<le> 7
   \<and> hd (stdout (main \<lparr>arg_threads = 3, arg_iterations = 7, arg_keys = 10,
           arg_read_ratio = Finite (8106479329266893 / 2 ^ 53),
           arg_seed = 42, arg_model = ''threads'', arg_shards = 2\<rparr>
          \<lparr>env_runtime = ''python3.12.0'', env_duration_ms = 5, env_rss_bytes = 20000000\<rparr> [0, 2, 1]))
       \<in> set (stdout (main \<lparr>arg_threads = 3, arg_iterations = 7, arg_keys = 10,
           arg_read_ratio = Finite (8106479329266893 / 2 ^ 53),
           arg_seed = 42, arg_model = ''threads'', arg_shards = 2\<rparr>
          \<lparr>env_runtime = ''python3.12.0'', env_duration_ms = 5, env_rss_bytes = 20000000\<rparr> [0, 2, 1]))
   \<and> res_iterations
        (hd (stdout (main \<lparr>arg_threads = 3, arg_iterations = 7, arg_keys = 10,
           arg_read_ratio = Finite (8106479329266893 / 2 ^ 53),
           arg_seed = 42, arg_model = ''threads'', arg_shards = 2\<rparr>
          \<lparr>env_runtime = ''python3.12.0'', env_duration_ms = 5, env_rss_bytes = 20000000\<rparr> [0, 2, 1])))
       = 6"
proof -
  let ?a = "\<lparr>arg_threads = 3, arg_iterations = 7, arg_keys = 10,
           arg_read_ratio = Finite (8106479329266893 / 2 ^ 53),
           arg_seed = 42, arg_model = ''threads'', arg_shards = 2\<rparr>"
  let ?e = "\<lparr>env_runtime = ''python3.12.0'', env_duration_ms = 5, env_rss_bytes = 20000000\<rparr>"
  have h: "1 \<le> arg_threads ?a" "0 \<le> arg_iterations ?a" by simp_all
  obtain errs where "main ?a ?e [0, 2, 1] = emit errs ?a ?e (arg_iterations ?a div arg_threads ?a)"
    using main_threads_emits [of ?a ?e "[0, 2, 1]"] by auto
  then have m: "hd (stdout (main ?a ?e [0, 2, 1])) \<in> set (stdout (main ?a ?e [0, 2, 1]))"
    by (simp add: emit_def)
  have "res_iterations (hd (stdout (main ?a ?e [0, 2, 1]))) = 6"
    using reported_iterations [OF h m] by simp
  then show ?thesis
    using m by simp
qed

text \<open>
  Claim C9. When the model is neither \<open>threads\<close> nor \<open>processes\<close>, the program exits with
  status 1, prints no record, and writes one diagnostic to the error stream: the message
  \<open>unknown model\<close>, or, when the worker count is 0, the traceback of the division that
  computes the iterations per worker, which comes first.
\<close>

theorem unknown_model_exit:
  assumes "arg_model a \<noteq> ''threads''" and "arg_model a \<noteq> ''processes''"
  shows "exit_status (main a env sched) = 1
         \<and> stdout (main a env sched) = []
         \<and> stderr (main a env sched) =
             (if arg_threads a = 0 then [Traceback ZeroDivisionError]
              else [Message ''unknown model''])"
  using assms by (simp add: main_def py_floordiv_def uncaught_def)

theorem unknown_model_exit_witness:
  "''gevent'' \<noteq> ''threads'' \<and> ''gevent'' \<noteq> ''processes''
   \<and> main \<lparr>arg_threads = 8, arg_iterations = 2000000, arg_keys = 100000,
           arg_read_ratio = Finite (8106479329266893 / 2 ^ 53),
           arg_seed = 42, arg_model = ''gevent'', arg_shards = 64\<rparr>
          \<lparr>env_runtime = ''python3.12.0'', env_duration_ms = 0, env_rss_bytes = 20000000\<rparr> [] =
       \<lparr>exit_status = 1, stdout = [], stderr = [Message ''unknown model'']\<rparr>"
proof -
  let ?a = "\<lparr>arg_threads = 8, arg_iterations = 2000000, arg_keys = 100000,
           arg_read_ratio = Finite (8106479329266893 / 2 ^ 53),
           arg_seed = 42, arg_model = ''gevent'', arg_shards = 64\<rparr>"
  let ?e = "\<lparr>env_runtime = ''python3.12.0'', env_duration_ms = 0, env_rss_bytes = 20000000\<rparr>"
  have h: "arg_model ?a \<noteq> ''threads''" "arg_model ?a \<noteq> ''processes''" by simp_all
  have "main ?a ?e [] = \<lparr>exit_status = exit_status (main ?a ?e []), stdout = stdout (main ?a ?e []),
      stderr = stderr (main ?a ?e [])\<rparr>"
    by simp
  then show ?thesis
    using unknown_model_exit [OF h, of ?e "[]"] by simp
qed

lemma py_range_Cons: "1 \<le> n \<Longrightarrow> py_range n = 0 # map int [Suc 0..<nat n]"
  by (simp add: py_range_def upt_conv_Cons)

lemma worker_process_keys0:
  assumes "1 \<le> per"
  shows "worker_process (0, per, read_ratio, seed, pid, shardsN) =
           Inl (case reads_of read_ratio of Inl e \<Rightarrow> e | Inr reads \<Rightarrow> ZeroDivisionError)"
proof -
  obtain m where "nat per = Suc m"
    using assms by (cases "nat per") simp_all
  then show ?thesis
    by (simp add: worker_process_def worker_process_shards_def py_range_def process_iter_keys0
        split: sum.splits)
qed

lemma worker_process_shards0:
  assumes "1 \<le> keys"
  shows "worker_process (keys, per, read_ratio, seed, pid, 0) = Inl ZeroDivisionError"
  using py_range_Cons [OF assms]
  by (simp add: worker_process_def worker_process_shards_def py_mod_def)

lemma worker_process_shards_neg:
  assumes "1 \<le> keys" and "shardsN < 0"
  shows "worker_process (keys, per, read_ratio, seed, pid, shardsN) = Inl IndexError"
  using py_range_Cons [OF assms(1)] assms(2)
  by (simp add: worker_process_def worker_process_shards_def py_mod_def py_index_def)

lemma threads_model_shards0:
  assumes "1 \<le> arg_keys a" and "arg_shards a = 0"
  shows "threads_model a per sched = Inl ZeroDivisionError"
  using py_range_Cons [OF assms(1)] assms(2)
  by (simp add: threads_model_def py_mod_def)

lemma threads_model_shards_neg:
  assumes "1 \<le> arg_keys a" and "arg_shards a < 0"
  shows "threads_model a per sched = Inl IndexError"
  using py_range_Cons [OF assms(1)] assms(2)
  by (simp add: threads_model_def py_mod_def py_index_def)

text \<open>
  Claim C8, as the program has it. The counts are not checked. These counts are fatal, with
  a traceback on the error stream, exit status 1 and no record: a worker count of 0, in
  every model, by the division that computes the iterations per worker, before any work; a
  key count of 0 in the isolated-process model when each of at least one worker runs at
  least one iteration, the exception of the worker (the \<open>ZeroDivisionError\<close> of its first
  draw, or before it the exception of its threshold) being raised again in the parent; a
  shard count of 0, or below 0, with at least one key and one worker, in both models, by
  the \<open>ZeroDivisionError\<close>, or the \<open>IndexError\<close>, of the prefill; and a worker count below 0 in
  the isolated-process model, by the \<open>ValueError\<close> of the pool. In the shared-memory model a
  key count of 0 is not fatal: whatever the worker threads do, the record is printed and
  the exit status is 0.
\<close>

theorem fatal_counts:
  "(arg_threads a = 0 \<longrightarrow>
      main a env sched =
        \<lparr>exit_status = 1, stdout = [], stderr = [Traceback ZeroDivisionError]\<rparr>)
   \<and> (arg_model a = ''processes'' \<and> arg_keys a = 0 \<and> 1 \<le> arg_threads a
        \<and> arg_threads a \<le> arg_iterations a \<longrightarrow>
      main a env sched =
        \<lparr>exit_status = 1, stdout = [],
         stderr = [Traceback (case reads_of (arg_read_ratio a) of
                                Inl e \<Rightarrow> e | Inr reads \<Rightarrow> ZeroDivisionError)]\<rparr>)
   \<and> ((arg_model a = ''threads'' \<or> arg_model a = ''processes'') \<and> arg_shards a = 0
        \<and> 1 \<le> arg_keys a \<and> 1 \<le> arg_threads a \<longrightarrow>
      main a env sched =
        \<lparr>exit_status = 1, stdout = [], stderr = [Traceback ZeroDivisionError]\<rparr>)
   \<and> ((arg_model a = ''threads'' \<or> arg_model a = ''processes'') \<and> arg_shards a < 0
        \<and> 1 \<le> arg_keys a \<and> 1 \<le> arg_threads a \<longrightarrow>
      main a env sched =
        \<lparr>exit_status = 1, stdout = [], stderr = [Traceback IndexError]\<rparr>)
   \<and> (arg_model a = ''processes'' \<and> arg_threads a < 0 \<longrightarrow>
      main a env sched =
        \<lparr>exit_status = 1, stdout = [], stderr = [Traceback ValueError]\<rparr>)
   \<and> (arg_model a = ''threads'' \<and> arg_keys a = 0 \<and> arg_threads a \<noteq> 0 \<longrightarrow>
      exit_status (main a env sched) = 0
      \<and> stdout (main a env sched) =
          stdout (emit [] a env (arg_iterations a div arg_threads a)))"
proof (intro conjI impI)
  assume "arg_threads a = 0"
  then show "main a env sched =
      \<lparr>exit_status = 1, stdout = [], stderr = [Traceback ZeroDivisionError]\<rparr>"
    by (simp add: main_def py_floordiv_def uncaught_def)
next
  assume h: "arg_model a = ''processes'' \<and> arg_keys a = 0 \<and> 1 \<le> arg_threads a
        \<and> arg_threads a \<le> arg_iterations a"
  then have "0 < arg_iterations a div arg_threads a"
    by (simp add: pos_imp_zdiv_pos_iff)
  then have per: "1 \<le> arg_iterations a div arg_threads a"
    by simp
  have "processes_model a (arg_iterations a div arg_threads a) =
      Inl (case reads_of (arg_read_ratio a) of Inl e \<Rightarrow> e | Inr reads \<Rightarrow> ZeroDivisionError)"
    using h py_range_Cons [of "arg_threads a"] worker_process_keys0 [OF per]
    by (simp add: processes_model_def)
  then show "main a env sched =
      \<lparr>exit_status = 1, stdout = [],
       stderr = [Traceback (case reads_of (arg_read_ratio a) of
                              Inl e \<Rightarrow> e | Inr reads \<Rightarrow> ZeroDivisionError)]\<rparr>"
    using h by (simp add: main_def py_floordiv_def uncaught_def)
next
  assume h: "(arg_model a = ''threads'' \<or> arg_model a = ''processes'') \<and> arg_shards a = 0
        \<and> 1 \<le> arg_keys a \<and> 1 \<le> arg_threads a"
  then have k: "1 \<le> arg_keys a" and s: "arg_shards a = 0" and t: "1 \<le> arg_threads a"
    by simp_all
  have p: "processes_model a per = Inl ZeroDivisionError" for per
    using t s py_range_Cons [OF t] worker_process_shards0 [OF k]
    by (simp add: processes_model_def)
  show "main a env sched =
      \<lparr>exit_status = 1, stdout = [], stderr = [Traceback ZeroDivisionError]\<rparr>"
    using h threads_model_shards0 [OF k s] p
    by (auto simp add: main_def py_floordiv_def uncaught_def)
next
  assume h: "(arg_model a = ''threads'' \<or> arg_model a = ''processes'') \<and> arg_shards a < 0
        \<and> 1 \<le> arg_keys a \<and> 1 \<le> arg_threads a"
  then have k: "1 \<le> arg_keys a" and s: "arg_shards a < 0" and t: "1 \<le> arg_threads a"
    by simp_all
  have p: "processes_model a per = Inl IndexError" for per
    using t py_range_Cons [OF t] worker_process_shards_neg [OF k s]
    by (simp add: processes_model_def)
  show "main a env sched =
      \<lparr>exit_status = 1, stdout = [], stderr = [Traceback IndexError]\<rparr>"
    using h threads_model_shards_neg [OF k s] p
    by (auto simp add: main_def py_floordiv_def uncaught_def)
next
  assume "arg_model a = ''processes'' \<and> arg_threads a < 0"
  then show "main a env sched =
      \<lparr>exit_status = 1, stdout = [], stderr = [Traceback ValueError]\<rparr>"
    by (simp add: main_def py_floordiv_def uncaught_def processes_model_def)
next
  assume h: "arg_model a = ''threads'' \<and> arg_keys a = 0 \<and> arg_threads a \<noteq> 0"
  then obtain sh ts where
    "threads_model a (arg_iterations a div arg_threads a) sched = Inr (sh, ts)"
    using threads_model_keys0 [of a] by blast
  then have m: "main a env sched =
      emit (thread_tracebacks ts) a env (arg_iterations a div arg_threads a)"
    using h by (simp add: main_def py_floordiv_def)
  show "exit_status (main a env sched) = 0"
    unfolding m by (simp add: emit_def)
  show "stdout (main a env sched) =
          stdout (emit [] a env (arg_iterations a div arg_threads a))"
    unfolding m by (simp add: emit_def)
qed

theorem fatal_counts_witness:
  "main \<lparr>arg_threads = 0, arg_iterations = 4, arg_keys = 10, arg_read_ratio = Finite (1 / 2),
         arg_seed = 42, arg_model = ''threads'', arg_shards = 2\<rparr>
        \<lparr>env_runtime = ''python3.12.0'', env_duration_ms = 0, env_rss_bytes = 20000000\<rparr> [] =
     \<lparr>exit_status = 1, stdout = [], stderr = [Traceback ZeroDivisionError]\<rparr>
   \<and> main \<lparr>arg_threads = 2, arg_iterations = 4, arg_keys = 0, arg_read_ratio = Finite (1 / 2),
         arg_seed = 42, arg_model = ''processes'', arg_shards = 2\<rparr>
        \<lparr>env_runtime = ''python3.12.0'', env_duration_ms = 0, env_rss_bytes = 20000000\<rparr> [] =
     \<lparr>exit_status = 1, stdout = [], stderr = [Traceback ZeroDivisionError]\<rparr>
   \<and> main \<lparr>arg_threads = 2, arg_iterations = 4, arg_keys = 10, arg_read_ratio = Finite (1 / 2),
         arg_seed = 42, arg_model = ''threads'', arg_shards = 0\<rparr>
        \<lparr>env_runtime = ''python3.12.0'', env_duration_ms = 0, env_rss_bytes = 20000000\<rparr> [] =
     \<lparr>exit_status = 1, stdout = [], stderr = [Traceback ZeroDivisionError]\<rparr>
   \<and> main \<lparr>arg_threads = 2, arg_iterations = 4, arg_keys = 3, arg_read_ratio = Finite (1 / 2),
         arg_seed = 42, arg_model = ''threads'', arg_shards = - 2\<rparr>
        \<lparr>env_runtime = ''python3.12.0'', env_duration_ms = 0, env_rss_bytes = 20000000\<rparr> [] =
     \<lparr>exit_status = 1, stdout = [], stderr = [Traceback IndexError]\<rparr>
   \<and> main \<lparr>arg_threads = - 1, arg_iterations = 4, arg_keys = 10, arg_read_ratio = Finite (1 / 2),
         arg_seed = 42, arg_model = ''processes'', arg_shards = 2\<rparr>
        \<lparr>env_runtime = ''python3.12.0'', env_duration_ms = 0, env_rss_bytes = 20000000\<rparr> [] =
     \<lparr>exit_status = 1, stdout = [], stderr = [Traceback ValueError]\<rparr>
   \<and> exit_status
        (main \<lparr>arg_threads = 2, arg_iterations = 4, arg_keys = 0, arg_read_ratio = Finite (1 / 2),
           arg_seed = 42, arg_model = ''threads'', arg_shards = 2\<rparr>
          \<lparr>env_runtime = ''python3.12.0'', env_duration_ms = 0, env_rss_bytes = 20000000\<rparr> [0, 1])
      = 0"
proof -
  let ?e = "\<lparr>env_runtime = ''python3.12.0'', env_duration_ms = 0, env_rss_bytes = 20000000\<rparr>"
  have r: "reads_of (Finite (1 / 2)) = Inr 500"
    by (simp add: reads_of_def round_double_eval)
  show ?thesis
    using
      fatal_counts [of "\<lparr>arg_threads = 0, arg_iterations = 4, arg_keys = 10,
         arg_read_ratio = Finite (1 / 2), arg_seed = 42, arg_model = ''threads'',
         arg_shards = 2\<rparr>" ?e "[]"]
      fatal_counts [of "\<lparr>arg_threads = 2, arg_iterations = 4, arg_keys = 0,
         arg_read_ratio = Finite (1 / 2), arg_seed = 42, arg_model = ''processes'',
         arg_shards = 2\<rparr>" ?e "[]"]
      fatal_counts [of "\<lparr>arg_threads = 2, arg_iterations = 4, arg_keys = 10,
         arg_read_ratio = Finite (1 / 2), arg_seed = 42, arg_model = ''threads'',
         arg_shards = 0\<rparr>" ?e "[]"]
      fatal_counts [of "\<lparr>arg_threads = 2, arg_iterations = 4, arg_keys = 3,
         arg_read_ratio = Finite (1 / 2), arg_seed = 42, arg_model = ''threads'',
         arg_shards = - 2\<rparr>" ?e "[]"]
      fatal_counts [of "\<lparr>arg_threads = - 1, arg_iterations = 4, arg_keys = 10,
         arg_read_ratio = Finite (1 / 2), arg_seed = 42, arg_model = ''processes'',
         arg_shards = 2\<rparr>" ?e "[]"]
      fatal_counts [of "\<lparr>arg_threads = 2, arg_iterations = 4, arg_keys = 0,
         arg_read_ratio = Finite (1 / 2), arg_seed = 42, arg_model = ''threads'',
         arg_shards = 2\<rparr>" ?e "[0, 1]"]
    by (simp add: r)
qed

text \<open>
  Claim C8, as it is written, says that a key count of 0 always ends the program with a
  status other than 0 and without a record. It does not: in the shared-memory model, with
  2 workers of 2 iterations each, both threads end with a \<open>ZeroDivisionError\<close> on their
  first draw, and the main thread joins them, prints the record and exits with status 0.
\<close>

theorem zero_keys_not_fatal:
  "main \<lparr>arg_threads = 2, arg_iterations = 4, arg_keys = 0,
         arg_read_ratio = Finite (8106479329266893 / 2 ^ 53),
         arg_seed = 42, arg_model = ''threads'', arg_shards = 2\<rparr>
        \<lparr>env_runtime = ''python3.12.0'', env_duration_ms = 0, env_rss_bytes = 20000000\<rparr> [] =
     \<lparr>exit_status = 0,
      stdout = [\<lparr>res_runtime = ''python3.12.0'', res_model = ''threads'', res_threads = 2,
                 res_iterations = 4, res_keys = 0,
                 res_read_ratio = Finite (8106479329266893 / 2 ^ 53), res_seed = 42,
                 res_duration_ms = 0, res_rss_bytes = 20000000\<rparr>],
      stderr = [Traceback ZeroDivisionError, Traceback ZeroDivisionError]\<rparr>"
proof -
  have r: "reads_of (Finite (8106479329266893 / 9007199254740992)) = Inr 900"
    by (simp add: reads_of_def round_double_eval)
  show ?thesis
    by (simp add: main_def py_floordiv_def threads_model_def py_range_def emit_def
        start_thread_def r thread_iter_keys0 eval_nat_numeral)
qed

end
